theory Spec2Isabelle
  imports Main "HOL-Library.Sublist"
begin

section \<open>The syntax tree handed over by go/parser\<close>

text \<open>
  \<^verbatim>\<open>maker.go\<close> works on the tree that \<^verbatim>\<open>parser.ParseFile\<close> returns. Only the
  parts it reads are kept. Of the expression nodes, \<^verbatim>\<open>getReceiverTypeName\<close> tells
  \<^verbatim>\<open>*ast.StarExpr\<close> and \<^verbatim>\<open>*ast.Ident\<close> from everything else, so every other node kind
  is one constructor carrying its source text.
\<close>

datatype expr = Ident string | StarExpr expr | OtherExpr string

text \<open>\<^verbatim>\<open>ast.Field\<close>: the names bound (possibly none) and their type.\<close>

record Field =
  Names :: "string list"
  Type :: expr

text \<open>\<^verbatim>\<open>ast.FuncType\<close>: both field lists may be nil.\<close>

record FuncType =
  Params :: "Field list option"
  Results :: "Field list option"

text \<open>
  \<^verbatim>\<open>ast.FuncDecl\<close>: \<open>Doc\<close> is the text of each comment of the doc comment group (nil
  when there is none), \<open>Recv\<close> the receiver field list (nil for a plain function),
  \<open>Name\<close> the identifier's name.
\<close>

record FuncDecl =
  Doc :: "string list option"
  Recv :: "Field list option"
  Name :: string
  FType :: FuncType

text \<open>\<^verbatim>\<open>ast.Decl\<close>: a function declaration, or one of the other two kinds.\<close>

datatype Decl = DFunc FuncDecl | DGen | DBad

text \<open>
  \<^verbatim>\<open>ast.ImportSpec\<close>: \<open>ImpName\<close> is the local name (nil when none is written; \<open>''.''\<close>
  for a dot import), \<open>PathValue\<close> the path literal as written, quotes included.
\<close>

record ImportSpec =
  ImpName :: "string option"
  PathValue :: string

record File =
  Decls :: "Decl list"
  Imports :: "ImportSpec list"

section \<open>The library functions the maker calls\<close>

text \<open>
  The Go standard library and \<^verbatim>\<open>golang.org/x/tools/imports\<close> are not part of the
  repository. What \<^verbatim>\<open>maker.go\<close> calls of them is a parameter of the model. Two of the
  calls read the state of the process and of its surroundings (the working directory, the
  environment variables, the files of the module and of \<^verbatim>\<open>GOPATH\<close>); that state is a
  value of the type \<open>'e\<close>, an argument of these two:
  \<^item> \<open>PathSeparator\<close>: \<^verbatim>\<open>os.PathSeparator\<close>;
  \<^item> \<open>Getwd\<close>: \<^verbatim>\<open>os.Getwd\<close> in a process state, \<open>None\<close> when it returns an error;
  \<^item> \<open>Dir\<close>: \<^verbatim>\<open>filepath.Dir\<close>;
  \<^item> \<open>Unquote\<close>: \<^verbatim>\<open>strconv.Unquote\<close>, \<open>None\<close> when it returns an error;
  \<^item> \<open>Quote\<close>: the verb \<^verbatim>\<open>%q\<close> of \<^verbatim>\<open>fmt\<close> on a string;
  \<^item> \<open>IsExported\<close>: \<^verbatim>\<open>(*ast.Ident).IsExported\<close> on the identifier's name;
  \<^item> \<open>Fprint\<close>: what \<^verbatim>\<open>printer.Fprint\<close> writes for a node, \<open>None\<close> when it
    returns an error;
  \<^item> \<open>Process\<close>: \<^verbatim>\<open>imports.Process\<close> with the options of \<^verbatim>\<open>formatCode\<close> in a process
    state, \<open>None\<close> when it returns an error. The options do not set \<^verbatim>\<open>FormatOnly\<close>, so
    it adds and removes imports, and looks the packages up from the working directory.
\<close>

record 'e golib =
  PathSeparator :: char
  Getwd :: "'e \<Rightarrow> string option"
  Dir :: "string \<Rightarrow> string"
  Unquote :: "string \<Rightarrow> string option"
  Quote :: "string \<Rightarrow> string"
  IsExported :: "string \<Rightarrow> bool"
  Fprint :: "expr \<Rightarrow> string option"
  Process :: "'e \<Rightarrow> string \<Rightarrow> string option"

text \<open>
  Errors: \<open>Errorf\<close> is \<^verbatim>\<open>fmt.Errorf\<close> with the formatted message, \<open>External\<close> an
  error value returned by a library call, \<open>Wrap e msg\<close> is \<^verbatim>\<open>errors.Wrap(e, msg)\<close>.
  \<open>NilDereference\<close> is the run-time panic of reading a field through a nil pointer.
\<close>

datatype error = Errorf string | External | Wrap error string | NilDereference

subsection \<open>strings.HasSuffix, strings.Split, strings.Join\<close>

definition HasSuffix :: "string \<Rightarrow> string \<Rightarrow> bool" where
  "HasSuffix s suff \<longleftrightarrow>
     length s \<ge> length suff \<and> drop (length s - length suff) s = suff"

text \<open>
  \<^verbatim>\<open>strings.Split(s, sep)\<close> for a separator of one byte: the pieces between the
  separators, \<open>n + 1\<close> of them for \<open>n\<close> separators.
\<close>

fun Split :: "string \<Rightarrow> char \<Rightarrow> string list" where
  "Split [] sep = [[]]"
| "Split (c # cs) sep =
     (if c = sep then [] # Split cs sep
      else (case Split cs sep of
              [] \<Rightarrow> [[c]]
            | piece # pieces \<Rightarrow> (c # piece) # pieces))"

fun Join :: "string list \<Rightarrow> string \<Rightarrow> string" where
  "Join [] sep = []"
| "Join [x] sep = x"
| "Join (x # y # zs) sep = x @ sep @ Join (y # zs) sep"

subsection \<open>(*ast.FieldList).NumFields\<close>

fun NumFields :: "Field list option \<Rightarrow> nat" where
  "NumFields None = 0"
| "NumFields (Some fl) =
     foldl (\<lambda>n g. n + (if length (Names g) = 0 then 1 else length (Names g))) 0 fl"

section \<open>The maker\<close>

record method_rec =
  Code :: string
  Docs :: "string list"

record importedPkg =
  Alias :: string
  Path :: string

text \<open>
  \<^verbatim>\<open>Maker\<close>. A Go map is a partial function and a nil map reads as the empty one;
  \<^verbatim>\<open>map[string]struct{}\<close> is a set; a nil slice is the empty list. \<^verbatim>\<open>fset\<close> only keeps
  positions for the parser and the printer and is left out. The slices hold pointers;
  \<^verbatim>\<open>ParseSource\<close>, their only writer, appends the address of a new struct each time, so
  an element is never nil and the lists hold the structs.
\<close>

record Maker =
  StructName :: string
  CopyDocs :: bool
  importsByPath :: "string \<rightharpoonup> importedPkg"
  importsByAlias :: "string \<rightharpoonup> importedPkg"
  imports_list :: "importedPkg list"
  methods :: "method_rec list"
  methodNames :: "string set"
  funcDecks :: "FuncDecl list"
  Output :: string
  PkgNameUsedInSourceStruct :: string

definition errorAlias :: "string \<Rightarrow> string" where
  "errorAlias alias = (if alias = '''' then ''<none>'' else alias)"

text \<open>
  \<^verbatim>\<open>getReceiverTypeName\<close>. When \<^verbatim>\<open>NumFields\<close> is 1 the receiver list has one field, so
  \<^verbatim>\<open>fd.Recv.List[0]\<close> is in range and the last case below is never taken.
\<close>

fun getReceiverTypeName :: "Decl \<Rightarrow> string \<times> FuncDecl option" where
  "getReceiverTypeName (DFunc fd) =
     (if NumFields (Recv fd) \<noteq> 1 then ('''', None)
      else (case Recv fd of
              Some (f # fs) \<Rightarrow>
                (let t = (case Type f of StarExpr x \<Rightarrow> x | t \<Rightarrow> t)
                 in (case t of Ident name \<Rightarrow> (name, Some fd) | _ \<Rightarrow> ('''', None)))
            | _ \<Rightarrow> ('''', None)))"
| "getReceiverTypeName _ = ('''', None)"

definition cleanParams :: "Maker \<Rightarrow> string \<Rightarrow> string" where
  "cleanParams m param =
     (let expl = Split param (CHR ''.'')
      in if length expl = 2 \<and> expl ! 0 = PkgNameUsedInSourceStruct m then expl ! 1
         else param)"

text \<open>
  \<^verbatim>\<open>printParameters\<close>: the inner loop over the names of one field, the outer loop
  over the fields. \<open>buff\<close> is the buffer written so far. \<^verbatim>\<open>i < l-1\<close> holds exactly when
  a name follows. \<^verbatim>\<open>bytes.Buffer.WriteString\<close> always returns a nil error.
\<close>

fun printNames :: "'e golib \<Rightarrow> string list \<Rightarrow> string \<Rightarrow> error + string" where
  "printNames L [] buff = Inr buff"
| "printNames L (name # names) buff =
     (case Fprint L (Ident name) of
        None \<Rightarrow> Inl (Wrap External ''failed printing parameter name'')
      | Some s \<Rightarrow>
          printNames L names (buff @ s @ (if names \<noteq> [] then '','' else '' '')))"

fun printFields :: "'e golib \<Rightarrow> Maker \<Rightarrow> Field list \<Rightarrow> string \<Rightarrow> error + string" where
  "printFields L m [] buff = Inr buff"
| "printFields L m (field # rest) buff =
     (case printNames L (Names field) buff of
        Inl e \<Rightarrow> Inl e
      | Inr buff1 \<Rightarrow>
          (case Fprint L (Type field) of
             None \<Rightarrow> Inl (Wrap External ''failed printing parameter type'')
           | Some currType \<Rightarrow>
               printFields L m rest
                 (buff1 @ cleanParams m currType @ (if rest \<noteq> [] then '','' else ''''))))"

definition printParameters :: "'e golib \<Rightarrow> Maker \<Rightarrow> Field list option \<Rightarrow> error + string" where
  "printParameters L m fl =
     (case fl of None \<Rightarrow> Inr '''' | Some l \<Rightarrow> printFields L m l '''')"

subsection \<open>ParseSource\<close>

text \<open>
  The first loop of \<^verbatim>\<open>ParseSource\<close>, over \<^verbatim>\<open>a.Decls\<close>. When the receiver name
  returned equals \<^verbatim>\<open>m.StructName\<close> and the declaration returned is nil, \<^verbatim>\<open>fd.Name\<close>
  panics.
\<close>

fun collectDecls :: "'e golib \<Rightarrow> Maker \<Rightarrow> Decl list \<Rightarrow> bool \<Rightarrow> error + (bool \<times> Maker)" where
  "collectDecls L m [] hasMethods = Inr (hasMethods, m)"
| "collectDecls L m (d # ds) hasMethods =
     (case getReceiverTypeName d of
        (a, fd) \<Rightarrow>
          if a = StructName m then
            (case fd of
               None \<Rightarrow> Inl NilDereference
             | Some f \<Rightarrow>
                 if \<not> IsExported L (Name f) then collectDecls L m ds hasMethods
                 else if Name f \<in> methodNames m then collectDecls L m ds True
                 else collectDecls L (m\<lparr>funcDecks := funcDecks m @ [f]\<rparr>) ds True)
          else collectDecls L m ds hasMethods)"

text \<open>
  The body of the second loop, over \<^verbatim>\<open>a.Imports\<close>, for one import. Its first
  statements set \<^verbatim>\<open>alias\<close>: the import's name, or the empty string when it has none.
\<close>

definition importAlias :: "ImportSpec \<Rightarrow> string" where
  "importAlias imp = (case ImpName imp of None \<Rightarrow> '''' | Some n \<Rightarrow> n)"

definition registerImport :: "'e golib \<Rightarrow> string \<Rightarrow> Maker \<Rightarrow> ImportSpec \<Rightarrow> error + Maker" where
  "registerImport L targetPath m imp =
     (let alias = importAlias imp
      in if alias = ''.'' then Inr m
         else (case Unquote L (PathValue imp) of
                 None \<Rightarrow>
                   Inl (Wrap External (''parsing import `'' @ PathValue imp @ ''` failed''))
               | Some path \<Rightarrow>
                   if HasSuffix targetPath path then
                     Inr (if alias \<noteq> '''' then m\<lparr>PkgNameUsedInSourceStruct := alias\<rparr> else m)
                   else (case importsByPath m path of
                           Some existing \<Rightarrow>
                             if Alias existing \<noteq> alias then
                               Inl (Errorf (''Package '' @ Quote L path
                                 @ '' imported multiple times with different aliases: ''
                                 @ errorAlias (Alias existing) @ '', '' @ errorAlias alias))
                             else Inr m
                         | None \<Rightarrow>
                             if alias \<noteq> '''' \<and> importsByAlias m alias \<noteq> None then
                               Inl (Errorf (''Import alias '' @ alias @ '' already in use''))
                             else
                               (let imp' = \<lparr>Alias = alias, Path = path\<rparr>
                                in Inr (m\<lparr>importsByPath := (importsByPath m)(path \<mapsto> imp'),
                                          importsByAlias := (importsByAlias m)(alias \<mapsto> imp'),
                                          imports_list := imports_list m @ [imp']\<rparr>)))))"

fun harvestImports :: "'e golib \<Rightarrow> string \<Rightarrow> Maker \<Rightarrow> ImportSpec list \<Rightarrow> error + Maker" where
  "harvestImports L targetPath m [] = Inr m"
| "harvestImports L targetPath m (imp # imps) =
     (case registerImport L targetPath m imp of
        Inl e \<Rightarrow> Inl e
      | Inr m' \<Rightarrow> harvestImports L targetPath m' imps)"

text \<open>The third loop, over \<^verbatim>\<open>m.funcDecks\<close>.\<close>

fun addMethods :: "'e golib \<Rightarrow> Maker \<Rightarrow> FuncDecl list \<Rightarrow> error + Maker" where
  "addMethods L m [] = Inr m"
| "addMethods L m (fd # fds) =
     (let methodName = Name fd
      in if methodName \<in> methodNames m then addMethods L m fds
         else (case printParameters L m (Params (FType fd)) of
                 Inl e \<Rightarrow> Inl (Wrap e ''failed printing parameters'')
               | Inr params \<Rightarrow>
                   (case printParameters L m (Results (FType fd)) of
                      Inl e \<Rightarrow> Inl (Wrap e ''failed printing return values'')
                    | Inr ret \<Rightarrow>
                        (let code = methodName @ ''('' @ params @ '') ('' @ ret @ '')'';
                             docs = (case Doc fd of
                                       Some l \<Rightarrow> if CopyDocs m then l else []
                                     | None \<Rightarrow> [])
                         in addMethods L
                              (m\<lparr>methodNames := insert methodName (methodNames m),
                                 methods := methods m @ [\<lparr>Code = code, Docs = docs\<rparr>]\<rparr>)
                              fds))))"

text \<open>
  The statements of \<^verbatim>\<open>ParseSource\<close> that make what is nil. A nil map reads as the
  empty map, so making \<^verbatim>\<open>importsByPath\<close> and \<^verbatim>\<open>importsByAlias\<close> changes nothing here;
  \<^verbatim>\<open>methodNames\<close> is made anew whenever \<^verbatim>\<open>methods\<close> is nil.
\<close>

definition makeMaps :: "Maker \<Rightarrow> Maker" where
  "makeMaps m = (if methods m = [] then m\<lparr>methodNames := {}\<rparr> else m)"

text \<open>
  \<^verbatim>\<open>ParseSource\<close>. \<open>getwd\<close> is the result of \<^verbatim>\<open>os.Getwd()\<close> in the calling
  process (\<open>None\<close> for an error), \<open>parsed\<close> the result of \<^verbatim>\<open>parser.ParseFile\<close> on
  the source bytes and the file name (\<open>None\<close> for an error). On an error the caller
  (\<^verbatim>\<open>run\<close>) stops, so no state is returned with it.
\<close>

definition ParseSource :: "'e golib \<Rightarrow> string option \<Rightarrow> File option \<Rightarrow> Maker \<Rightarrow> error + Maker" where
  "ParseSource L getwd parsed m =
     (case getwd of
        None \<Rightarrow> Inl (Wrap External ''os.Getwd()'')
      | Some currentPath \<Rightarrow>
          (let targetPath = Dir L (currentPath @ [PathSeparator L] @ Output m);
               m0 = makeMaps m
           in (case parsed of
                 None \<Rightarrow> Inl (Wrap External ''parsing file failed'')
               | Some a \<Rightarrow>
                   (case collectDecls L m0 (Decls a) False of
                      Inl e \<Rightarrow> Inl e
                    | Inr (hasMethods, m1) \<Rightarrow>
                        if \<not> hasMethods then Inr m1
                        else (case harvestImports L targetPath m1 (Imports a) of
                                Inl e \<Rightarrow> Inl e
                              | Inr m2 \<Rightarrow> addMethods L m2 (funcDecks m2))))))"

subsection \<open>Rendering\<close>

definition method_Lines :: "method_rec \<Rightarrow> string list" where
  "method_Lines me = ([] @ Docs me) @ [Code me]"

definition importedPkg_Lines :: "'e golib \<Rightarrow> importedPkg \<Rightarrow> string list" where
  "importedPkg_Lines L i = [] @ [Alias i @ '' '' @ Quote L (Path i)]"

definition makeInterface :: "'e golib \<Rightarrow> Maker \<Rightarrow> string \<Rightarrow> string \<Rightarrow> string" where
  "makeInterface L m pkgName ifaceName =
     (let output = [''// Code generated by ifacemaker. DO NOT EDIT.'',
                    '''',
                    ''package '' @ pkgName,
                    ''import (''];
          output = foldl (\<lambda>out pkgImport. out @ importedPkg_Lines L pkgImport) output
                     (imports_list m);
          output = output @ ['')'', ''type '' @ ifaceName @ '' interface {''];
          output = foldl (\<lambda>out me. out @ method_Lines me) output (methods m);
          output = output @ [''}'']
      in Join output [CHR 0x0A])"

text \<open>\<^verbatim>\<open>formatCode\<close>, in the process state \<open>env\<close>.\<close>

definition formatCode :: "'e golib \<Rightarrow> 'e \<Rightarrow> string \<Rightarrow> error + string" where
  "formatCode L env code =
     (case Process L env code of None \<Rightarrow> Inl External | Some b \<Rightarrow> Inr b)"

text \<open>
  \<^verbatim>\<open>MakeInterface\<close> has a pointer receiver, so it is given as a state transformer: the
  result, and the maker after the call. Neither it nor \<^verbatim>\<open>makeInterface\<close> nor the two
  \<^verbatim>\<open>Lines\<close> methods assign to a field of the maker; the slices they append to are local
  (\<^verbatim>\<open>output\<close>) or start nil (\<^verbatim>\<open>lines\<close>). \<open>env\<close> is the process state at the call.
\<close>

definition MakeInterface ::
  "'e golib \<Rightarrow> 'e \<Rightarrow> string \<Rightarrow> string \<Rightarrow> Maker \<Rightarrow> (error + string) \<times> Maker" where
  "MakeInterface L env pkgName ifaceName m =
     (let unformatted = makeInterface L m pkgName ifaceName
      in (case formatCode L env unformatted of
            Inl err \<Rightarrow>
              (Inl (Wrap err (''Failed to format generated code. This could be a bug in ifacemaker. The generated code was:''
                     @ [CHR 0x0A] @ unformatted @ [CHR 0x0A] @ ''Error'')), m)
          | Inr b \<Rightarrow> (Inr b, m)))"

subsection \<open>The command: run\<close>

text \<open>
  The command that imports \<^verbatim>\<open>sumia01/ifacemaker/maker\<close>. \<^verbatim>\<open>cmdlineArgs\<close> is given
  without the file names: finding and reading the files is done before the maker is
  called, and each file reaches it as its parse result. \<open>env\<close> is the state of the
  process that runs the command: \<^verbatim>\<open>ParseSource\<close> gets its working directory, the
  formatter reads it.
\<close>

record cmdlineArgs =
  StructType :: string
  IfaceName :: string
  PkgName :: string
  argCopyDocs :: bool
  argOutput :: string

definition newMaker :: "cmdlineArgs \<Rightarrow> Maker" where
  "newMaker args =
     \<lparr>StructName = StructType args, CopyDocs = argCopyDocs args,
      importsByPath = Map.empty, importsByAlias = Map.empty, imports_list = [],
      methods = [], methodNames = {}, funcDecks = [],
      Output = argOutput args, PkgNameUsedInSourceStruct = PkgName args\<rparr>"

text \<open>The loop of \<^verbatim>\<open>run\<close> over the files; \<^verbatim>\<open>log.Fatal\<close> ends the run at the first error.\<close>

fun parseAll :: "'e golib \<Rightarrow> string option \<Rightarrow> File option list \<Rightarrow> Maker \<Rightarrow> error + Maker" where
  "parseAll L getwd [] m = Inr m"
| "parseAll L getwd (parsed # rest) m =
     (case ParseSource L getwd parsed m of
        Inl e \<Rightarrow> Inl e
      | Inr m' \<Rightarrow> parseAll L getwd rest m')"

definition run :: "'e golib \<Rightarrow> 'e \<Rightarrow> cmdlineArgs \<Rightarrow> File option list \<Rightarrow> error + string" where
  "run L env args files =
     (case parseAll L (Getwd L env) files (newMaker args) of
        Inl e \<Rightarrow> Inl e
      | Inr m \<Rightarrow> fst (MakeInterface L env (PkgName args) (IfaceName args) m))"

section \<open>A library instance for closed examples\<close>

text \<open>
  \<^verbatim>\<open>filepath.Dir\<close> where the separator is \<open>/\<close> and paths have no volume name: the
  path up to its last separator, cleaned. \<^verbatim>\<open>filepath.Clean\<close> drops empty and \<open>.\<close>
  elements, lets \<open>..\<close> remove the element before it (at the root it is dropped, at
  the start of a relative path it is kept), and turns the empty result into \<open>.\<close>.
  \<open>out\<close> holds the elements kept so far, \<open>dotdot\<close> how many of them are a leading
  \<open>..\<close> that cannot be removed.
\<close>

fun cleanElems :: "bool \<Rightarrow> string list \<Rightarrow> string list \<Rightarrow> nat \<Rightarrow> string list" where
  "cleanElems rooted [] out dotdot = out"
| "cleanElems rooted (e # es) out dotdot =
     (if e = '''' \<or> e = ''.'' then cleanElems rooted es out dotdot
      else if e = ''..'' then
        (if length out > dotdot then cleanElems rooted es (butlast out) dotdot
         else if \<not> rooted then cleanElems rooted es (out @ [''..'']) (length out + 1)
         else cleanElems rooted es out dotdot)
      else cleanElems rooted es (out @ [e]) dotdot)"

definition unix_Clean :: "string \<Rightarrow> string" where
  "unix_Clean path =
     (let rooted = (path \<noteq> [] \<and> hd path = CHR ''/'');
          s = (if rooted then ''/'' else '''')
                @ Join (cleanElems rooted (Split path (CHR ''/'')) [] 0) ''/''
      in if s = [] then ''.'' else s)"

definition unix_Dir :: "string \<Rightarrow> string" where
  "unix_Dir path = unix_Clean (rev (dropWhile (\<lambda>c. c \<noteq> CHR ''/'') (rev path)))"

text \<open>
  The other functions agree with the Go library on the arguments of the examples below:
  import path literals in double quotes without escapes, names in ASCII, and a printer
  that writes an identifier as its name, a pointer type with a star, and any other
  expression as its source text. The process state of the examples is the working
  directory alone, and their formatter returns its input in every process state.
\<close>

definition plainText :: "string \<Rightarrow> bool" where
  "plainText s \<longleftrightarrow> list_all (\<lambda>c. c \<noteq> CHR 0x22 \<and> c \<noteq> CHR 0x5C \<and> c \<noteq> CHR 0x0A) s"

definition example_Unquote :: "string \<Rightarrow> string option" where
  "example_Unquote s =
     (if length s \<ge> 2 \<and> hd s = CHR 0x22 \<and> last s = CHR 0x22 \<and> plainText (butlast (tl s))
      then Some (butlast (tl s)) else None)"

definition example_Quote :: "string \<Rightarrow> string" where
  "example_Quote s = [CHR 0x22] @ s @ [CHR 0x22]"

definition example_IsExported :: "string \<Rightarrow> bool" where
  "example_IsExported name =
     (case name of [] \<Rightarrow> False | c # cs \<Rightarrow> c \<in> set ''ABCDEFGHIJKLMNOPQRSTUVWXYZ'')"

fun example_Fprint :: "expr \<Rightarrow> string option" where
  "example_Fprint (Ident name) = Some name"
| "example_Fprint (StarExpr x) = map_option (\<lambda>s. ''*'' @ s) (example_Fprint x)"
| "example_Fprint (OtherExpr src) = Some src"

definition example_lib :: "string golib" where
  "example_lib =
     \<lparr>PathSeparator = CHR ''/'', Getwd = Some, Dir = unix_Dir, Unquote = example_Unquote,
      Quote = example_Quote, IsExported = example_IsExported, Fprint = example_Fprint,
      Process = (\<lambda>env code. Some code)\<rparr>"

section \<open>The claims' notions, as functions\<close>

text \<open>
  A declaration has exactly one receiver binding of the named type \<open>T\<close>: one receiver
  field with at most one name, whose type is the identifier \<open>T\<close> or a pointer to it.
\<close>

definition receiverNamed :: "FuncDecl \<Rightarrow> string \<Rightarrow> bool" where
  "receiverNamed fd T =
     (case Recv fd of
        Some [f] \<Rightarrow> length (Names f) \<le> 1 \<and> (Type f = Ident T \<or> Type f = StarExpr (Ident T))
      | _ \<Rightarrow> False)"

definition funcDecls :: "Decl list \<Rightarrow> FuncDecl list" where
  "funcDecls ds = concat (map (\<lambda>d. case d of DFunc fd \<Rightarrow> [fd] | _ \<Rightarrow> []) ds)"

text \<open>The exported methods of the type \<open>T\<close> among the declarations, in their order.\<close>

definition qualifying :: "'e golib \<Rightarrow> string \<Rightarrow> Decl list \<Rightarrow> FuncDecl list" where
  "qualifying L T ds = filter (\<lambda>fd. receiverNamed fd T \<and> IsExported L (Name fd)) (funcDecls ds)"

text \<open>The first declaration of each name that is not in \<open>seen\<close>, in order.\<close>

fun first_wins :: "string set \<Rightarrow> FuncDecl list \<Rightarrow> FuncDecl list" where
  "first_wins seen [] = []"
| "first_wins seen (fd # fds) =
     (if Name fd \<in> seen then first_wins seen fds
      else fd # first_wins (insert (Name fd) seen) fds)"

text \<open>The method record that the third loop of \<^verbatim>\<open>ParseSource\<close> builds from one declaration.\<close>

definition methodOf :: "'e golib \<Rightarrow> Maker \<Rightarrow> FuncDecl \<Rightarrow> error + method_rec" where
  "methodOf L m fd =
     (case printParameters L m (Params (FType fd)) of
        Inl e \<Rightarrow> Inl (Wrap e ''failed printing parameters'')
      | Inr params \<Rightarrow>
          (case printParameters L m (Results (FType fd)) of
             Inl e \<Rightarrow> Inl (Wrap e ''failed printing return values'')
           | Inr ret \<Rightarrow>
               Inr \<lparr>Code = Name fd @ ''('' @ params @ '') ('' @ ret @ '')'',
                    Docs = (case Doc fd of Some l \<Rightarrow> if CopyDocs m then l else [] | None \<Rightarrow> [])\<rparr>))"

text \<open>
  An import is the self import when it is no dot import and its unquoted path is a
  suffix of the target path; \<open>lastSelfAlias\<close> is the alias the imports of a file
  leave as the source package alias: the last explicit alias of a self import, or the
  alias before.
\<close>

definition selfImport :: "'e golib \<Rightarrow> string \<Rightarrow> ImportSpec \<Rightarrow> bool" where
  "selfImport L targetPath imp \<longleftrightarrow>
     importAlias imp \<noteq> ''.''
     \<and> (case Unquote L (PathValue imp) of None \<Rightarrow> False | Some path \<Rightarrow> HasSuffix targetPath path)"

fun lastSelfAlias :: "'e golib \<Rightarrow> string \<Rightarrow> string \<Rightarrow> ImportSpec list \<Rightarrow> string" where
  "lastSelfAlias L targetPath cur [] = cur"
| "lastSelfAlias L targetPath cur (imp # imps) =
     lastSelfAlias L targetPath
       (if selfImport L targetPath imp \<and> importAlias imp \<noteq> '''' then importAlias imp else cur) imps"


text \<open>
  The source package alias after a file: the imports of a file with an exported method
  of the type \<open>T\<close> are harvested, those of another file are not. \<open>firstDeclarations\<close>
  pairs the first declaration of each name, over the files in order, with the source
  package alias that is in force when the methods of its file are made.
\<close>

definition fileAlias :: "'e golib \<Rightarrow> string \<Rightarrow> string \<Rightarrow> string \<Rightarrow> File \<Rightarrow> string" where
  "fileAlias L targetPath T cur a =
     (if qualifying L T (Decls a) = [] then cur else lastSelfAlias L targetPath cur (Imports a))"

fun firstDeclarations ::
  "'e golib \<Rightarrow> string \<Rightarrow> string \<Rightarrow> string set \<Rightarrow> string \<Rightarrow> File list \<Rightarrow> (FuncDecl \<times> string) list" where
  "firstDeclarations L targetPath T seen cur [] = []"
| "firstDeclarations L targetPath T seen cur (a # fs) =
     map (\<lambda>fd. (fd, fileAlias L targetPath T cur a)) (first_wins seen (qualifying L T (Decls a)))
     @ firstDeclarations L targetPath T (seen \<union> Name ` set (qualifying L T (Decls a)))
         (fileAlias L targetPath T cur a) fs"

text \<open>
  What every maker built by \<^verbatim>\<open>ParseSource\<close> satisfies: an entry of the alias index is
  the entry of the path index for its path, the entries of the path index carry
  their path and are the entries of the import list, and no path is listed twice.
\<close>

definition registryOk :: "Maker \<Rightarrow> bool" where
  "registryOk m \<longleftrightarrow>
     (\<forall>a q. importsByAlias m a = Some q \<longrightarrow> importsByPath m (Path q) = Some q)
     \<and> (\<forall>p q. importsByPath m p = Some q \<longrightarrow> Path q = p \<and> q \<in> set (imports_list m))
     \<and> (\<forall>q\<in>set (imports_list m). importsByPath m (Path q) = Some q)
     \<and> distinct (map Path (imports_list m))"

text \<open>
  What a run leaves of each of its files: the file did not stop with a panic, and every
  import of it that was harvested and is no self import is in the path index with its
  alias.
\<close>

definition replayable :: "'e golib \<Rightarrow> string \<Rightarrow> Maker \<Rightarrow> File \<Rightarrow> bool" where
  "replayable L tp m f \<longleftrightarrow>
     \<not> (StructName m = [] \<and> (\<exists>d\<in>set (Decls f). getReceiverTypeName d = ([], None)))
     \<and> (qualifying L (StructName m) (Decls f) \<noteq> [] \<longrightarrow>
          (\<forall>imp\<in>set (Imports f). importAlias imp \<noteq> ''.'' \<longrightarrow>
             (\<exists>path. Unquote L (PathValue imp) = Some path
                \<and> (\<not> HasSuffix tp path \<longrightarrow>
                     (\<exists>e. importsByPath m path = Some e \<and> Alias e = importAlias imp)))))"

text \<open>
  Every declaration waiting in \<^verbatim>\<open>funcDecks\<close> has been turned into a method, and no
  name is recorded before the first method is.
\<close>

definition settled :: "Maker \<Rightarrow> bool" where
  "settled m \<longleftrightarrow> Name ` set (funcDecks m) \<subseteq> methodNames m \<and> (methods m = [] \<longrightarrow> methodNames m = {})"

text \<open>
  The rule for qualifiers in the words of the specification: a printed type that is the
  alias, a dot and an identifier becomes the identifier, and every other printed type
  stays. An identifier is a letter or underscore followed by letters, digits and
  underscores; a byte of a letter outside ASCII counts as a letter.
\<close>

definition identChar :: "char \<Rightarrow> bool" where
  "identChar c \<longleftrightarrow>
     c \<in> set ''abcdefghijklmnopqrstuvwxyzABCDEFGHIJKLMNOPQRSTUVWXYZ0123456789_''
     \<or> (of_char c :: nat) \<ge> 128"

definition isIdentifier :: "string \<Rightarrow> bool" where
  "isIdentifier s \<longleftrightarrow> s \<noteq> [] \<and> list_all identChar s \<and> hd s \<notin> set ''0123456789''"

definition qualifierStripped :: "string \<Rightarrow> string \<Rightarrow> string" where
  "qualifierStripped alias printed =
     (let rest = drop (Suc (length alias)) printed
      in if take (Suc (length alias)) printed = alias @ ''.'' \<and> isIdentifier rest then rest
         else printed)"

text \<open>
  A declaration qualifies, in the words of claim C2, when its receiver type is the target
  type, its name is exported and its name has not been collected before.
\<close>

definition qualifiesNew :: "'e golib \<Rightarrow> Maker \<Rightarrow> FuncDecl \<Rightarrow> bool" where
  "qualifiesNew L m fd \<longleftrightarrow>
     receiverNamed fd (StructName m) \<and> IsExported L (Name fd) \<and> Name fd \<notin> methodNames m"

section \<open>Inputs of the closed examples\<close>

text \<open>
  The command line \<^verbatim>\<open>-s Foo -i FooIface -p bar2\<close> with no output file, and the same
  with \<^verbatim>\<open>-o iface.go\<close> and with \<^verbatim>\<open>-o ../out/iface.go\<close>.
\<close>

definition exArgs :: cmdlineArgs where
  "exArgs = \<lparr>StructType = ''Foo'', IfaceName = ''FooIface'', PkgName = ''bar2'',
             argCopyDocs = True, argOutput = ''''\<rparr>"

definition exArgsHere :: cmdlineArgs where
  "exArgsHere = exArgs\<lparr>argOutput := ''iface.go''\<rparr>"

definition exArgsOut :: cmdlineArgs where
  "exArgsOut = exArgs\<lparr>argOutput := ''../out/iface.go''\<rparr>"

text \<open>A maker whose source package alias is \<open>pkg\<close>.\<close>

definition exMakerPkg :: Maker where
  "exMakerPkg = (newMaker exArgs)\<lparr>PkgNameUsedInSourceStruct := ''pkg''\<rparr>"

text \<open>
  Declarations of a file \<^verbatim>\<open>foo.go\<close>:
  \<^verbatim>\<open>
  // Get gets.
  func (f *Foo) Get(w p.Widget) (string, error)
  func (f *Foo) reset()
  func Helper()
  func (b *Bar) Get() int
  func (a, b Foo) Pair()
  func (f **Foo) Deep()
  func (f p.Foo) Far()
  func (Foo) Set(v int)
  \<close>
\<close>

definition exGet :: FuncDecl where
  "exGet = \<lparr>Doc = Some [''// Get gets.''],
            Recv = Some [\<lparr>Names = [''f''], Type = StarExpr (Ident ''Foo'')\<rparr>],
            Name = ''Get'',
            FType = \<lparr>Params = Some [\<lparr>Names = [''w''], Type = OtherExpr ''p.Widget''\<rparr>],
                      Results = Some [\<lparr>Names = [], Type = Ident ''string''\<rparr>,
                                      \<lparr>Names = [], Type = Ident ''error''\<rparr>]\<rparr>\<rparr>"

definition exReset :: FuncDecl where
  "exReset = \<lparr>Doc = None, Recv = Some [\<lparr>Names = [''f''], Type = StarExpr (Ident ''Foo'')\<rparr>],
              Name = ''reset'', FType = \<lparr>Params = Some [], Results = None\<rparr>\<rparr>"

definition exHelper :: FuncDecl where
  "exHelper = \<lparr>Doc = None, Recv = None, Name = ''Helper'',
               FType = \<lparr>Params = Some [], Results = None\<rparr>\<rparr>"

definition exBarGet :: FuncDecl where
  "exBarGet = \<lparr>Doc = None, Recv = Some [\<lparr>Names = [''b''], Type = StarExpr (Ident ''Bar'')\<rparr>],
               Name = ''Get'',
               FType = \<lparr>Params = Some [], Results = Some [\<lparr>Names = [], Type = Ident ''int''\<rparr>]\<rparr>\<rparr>"

definition exPair :: FuncDecl where
  "exPair = \<lparr>Doc = None, Recv = Some [\<lparr>Names = [''a'', ''b''], Type = Ident ''Foo''\<rparr>],
             Name = ''Pair'', FType = \<lparr>Params = Some [], Results = None\<rparr>\<rparr>"

definition exDeep :: FuncDecl where
  "exDeep = \<lparr>Doc = None,
             Recv = Some [\<lparr>Names = [''f''], Type = StarExpr (StarExpr (Ident ''Foo''))\<rparr>],
             Name = ''Deep'', FType = \<lparr>Params = Some [], Results = None\<rparr>\<rparr>"

definition exFar :: FuncDecl where
  "exFar = \<lparr>Doc = None, Recv = Some [\<lparr>Names = [''f''], Type = OtherExpr ''p.Foo''\<rparr>],
            Name = ''Far'', FType = \<lparr>Params = Some [], Results = None\<rparr>\<rparr>"

definition exSet :: FuncDecl where
  "exSet = \<lparr>Doc = None, Recv = Some [\<lparr>Names = [], Type = Ident ''Foo''\<rparr>],
            Name = ''Set'',
            FType = \<lparr>Params = Some [\<lparr>Names = [''v''], Type = Ident ''int''\<rparr>], Results = None\<rparr>\<rparr>"

definition exDecls :: "Decl list" where
  "exDecls = [DGen, DFunc exGet, DFunc exReset, DFunc exHelper, DFunc exBarGet,
              DFunc exPair, DFunc exDeep, DFunc exFar, DFunc exSet]"

text \<open>
  The import specifications \<^verbatim>\<open>p "proj"\<close>, \<^verbatim>\<open>q "x/y"\<close>, \<^verbatim>\<open>r "x/y"\<close>, \<^verbatim>\<open>q "x/z"\<close>,
  \<^verbatim>\<open>"fmt"\<close> and \<^verbatim>\<open>. "x/dot"\<close>.
\<close>

definition impSpec :: "string option \<Rightarrow> string \<Rightarrow> ImportSpec" where
  "impSpec name path = \<lparr>ImpName = name, PathValue = [CHR 0x22] @ path @ [CHR 0x22]\<rparr>"

definition exFoo :: File where
  "exFoo = \<lparr>Decls = exDecls, Imports = [impSpec (Some ''p'') ''proj'']\<rparr>"

text \<open>
  Two files that declare \<^verbatim>\<open>func (f *Foo) Get(w p.Widget) (string, error)\<close> and nothing
  else: the first imports \<^verbatim>\<open>q "x/y"\<close>, the second \<^verbatim>\<open>r "x/y"\<close>; and a third, with
  \<^verbatim>\<open>func (Foo) Set(v int)\<close>, that imports \<^verbatim>\<open>"fmt"\<close>, \<^verbatim>\<open>. "x/dot"\<close> and \<^verbatim>\<open>q "x/z"\<close>.
\<close>

definition exFirst :: File where
  "exFirst = \<lparr>Decls = [DGen, DFunc exGet], Imports = [impSpec (Some ''q'') ''x/y'']\<rparr>"

definition exSecond :: File where
  "exSecond = \<lparr>Decls = [DGen, DFunc exGet], Imports = [impSpec (Some ''r'') ''x/y'']\<rparr>"

definition exThird :: File where
  "exThird = \<lparr>Decls = [DGen, DFunc exSet],
              Imports = [impSpec None ''fmt'', impSpec (Some ''.'') ''x/dot'',
                         impSpec (Some ''q'') ''x/z'']\<rparr>"

text \<open>
  A file with the declaration of \<^verbatim>\<open>Get\<close> that imports \<^verbatim>\<open>p "proj"\<close>, \<^verbatim>\<open>"fmt"\<close>,
  \<^verbatim>\<open>. "x/dot"\<close> and \<^verbatim>\<open>q "x/y"\<close>.
\<close>

definition exMixed :: File where
  "exMixed = \<lparr>Decls = [DGen, DFunc exGet],
              Imports = [impSpec (Some ''p'') ''proj'', impSpec None ''fmt'',
                         impSpec (Some ''.'') ''x/dot'', impSpec (Some ''q'') ''x/y'']\<rparr>"

text \<open>The maker after the first of these files, from the new maker of the command line above.\<close>

definition exAfterFirst :: Maker where
  "exAfterFirst =
     (newMaker exArgs)
       \<lparr>importsByPath := [''x/y'' \<mapsto> \<lparr>Alias = ''q'', Path = ''x/y''\<rparr>],
        importsByAlias := [''q'' \<mapsto> \<lparr>Alias = ''q'', Path = ''x/y''\<rparr>],
        imports_list := [\<lparr>Alias = ''q'', Path = ''x/y''\<rparr>],
        methods := [\<lparr>Code = ''Get(w p.Widget) (string,error)'', Docs = [''// Get gets.'']\<rparr>],
        methodNames := {''Get''},
        funcDecks := [exGet]\<rparr>"

text \<open>
  A file that declares \<^verbatim>\<open>Get\<close> again, with another signature and another comment, and
  \<^verbatim>\<open>Set\<close>, and imports nothing.
\<close>

definition exGetAgain :: FuncDecl where
  "exGetAgain = \<lparr>Doc = Some [''// Get, again.''],
                 Recv = Some [\<lparr>Names = [''f''], Type = Ident ''Foo''\<rparr>],
                 Name = ''Get'',
                 FType = \<lparr>Params = Some [], Results = Some [\<lparr>Names = [], Type = Ident ''int''\<rparr>]\<rparr>\<rparr>"

definition exAgain :: File where
  "exAgain = \<lparr>Decls = [DFunc exGetAgain, DFunc exSet], Imports = []\<rparr>"

section \<open>Strings\<close>

text \<open>\<^verbatim>\<open>strings.HasSuffix\<close> is the suffix order of lists.\<close>

lemma HasSuffix_suffix: "HasSuffix s t \<longleftrightarrow> suffix t s"
proof
  assume "HasSuffix s t"
  then have "s = take (length s - length t) s @ t"
    by (metis HasSuffix_def append_take_drop_id)
  then show "suffix t s" by (rule suffixI)
next
  assume "suffix t s"
  then obtain zs where "s = zs @ t" by (auto simp: suffix_def)
  then show "HasSuffix s t" by (simp add: HasSuffix_def)
qed

section \<open>Receivers and the collection loop\<close>

lemma foldl_plus:
  fixes w :: "'a \<Rightarrow> nat"
  shows "foldl (\<lambda>n g. n + w g) a xs = a + sum_list (map w xs)"
  by (induction xs arbitrary: a) auto

lemma NumFields_Some:
  "NumFields (Some fl) = sum_list (map (\<lambda>g. if length (Names g) = 0 then 1 else length (Names g)) fl)"
  using foldl_plus[of "\<lambda>g. if length (Names g) = 0 then 1 else length (Names g)" 0 fl]
  by simp

lemma NumFields_one:
  "NumFields r = Suc 0 \<longleftrightarrow> (\<exists>f. r = Some [f] \<and> length (Names f) \<le> Suc 0)"
proof (cases r)
  case None
  then show ?thesis by simp
next
  case (Some fl)
  define w where "w = (\<lambda>g::Field. if length (Names g) = 0 then 1 else length (Names g))"
  have n: "NumFields r = sum_list (map w fl)"
    unfolding w_def Some by (rule NumFields_Some)
  have w1: "Suc 0 \<le> w g" for g by (simp add: w_def Suc_le_eq)
  have wle: "w g = Suc 0 \<longleftrightarrow> length (Names g) \<le> Suc 0" for g
    by (cases "Names g") (simp_all add: w_def)
  show ?thesis
  proof (cases fl)
    case Nil
    with n Some show ?thesis by simp
  next
    case (Cons f fs)
    show ?thesis
    proof (cases fs)
      case Nil
      with n Some Cons wle[of f] show ?thesis by simp
    next
      case (Cons g gs)
      have "Suc 0 + Suc 0 \<le> w f + (w g + sum_list (map w gs))"
        using w1[of f] w1[of g] by linarith
      with n Some \<open>fl = f # fs\<close> Cons show ?thesis by simp
    qed
  qed
qed

lemma getReceiverTypeName_Some:
  "getReceiverTypeName d = (a, Some fd) \<longleftrightarrow> d = DFunc fd \<and> receiverNamed fd a"
proof (cases d)
  case (DFunc fd')
  show ?thesis
  proof (cases "NumFields (Recv fd') = Suc 0")
    case True
    then obtain f where f: "Recv fd' = Some [f]" "length (Names f) \<le> Suc 0"
      unfolding NumFields_one by blast
    with True DFunc show ?thesis
      by (cases "Type f") (auto simp: receiverNamed_def split: expr.splits)
  next
    case False
    then have "\<not> receiverNamed fd' a"
      by (auto simp: receiverNamed_def NumFields_one split: option.splits list.splits)
    with False DFunc show ?thesis by auto
  qed
qed (simp_all)

lemma getReceiverTypeName_None: "getReceiverTypeName d = (a, None) \<Longrightarrow> a = []"
  by (cases d) (auto split: if_splits option.splits list.splits expr.splits simp: Let_def)

lemma getReceiverTypeName_None_iff:
  "snd (getReceiverTypeName d) = None \<longleftrightarrow> (\<forall>fd. d = DFunc fd \<longrightarrow> (\<forall>T. \<not> receiverNamed fd T))"
proof (cases "getReceiverTypeName d")
  case (Pair a r)
  show ?thesis
  proof (cases r)
    case None
    have "\<not> receiverNamed fd T" if "d = DFunc fd" for fd T
    proof
      assume "receiverNamed fd T"
      with that have "getReceiverTypeName d = (T, Some fd)"
        using getReceiverTypeName_Some[of d T fd] by blast
      with Pair None show False by simp
    qed
    with Pair None show ?thesis by simp
  next
    case (Some fd)
    with Pair have "d = DFunc fd \<and> receiverNamed fd a" by (simp add: getReceiverTypeName_Some)
    with Pair Some show ?thesis by auto
  qed
qed

lemma qualifying_Cons:
  "qualifying L T (d # ds) =
     (case d of DFunc fd \<Rightarrow> if receiverNamed fd T \<and> IsExported L (Name fd) then [fd] else [] | _ \<Rightarrow> [])
       @ qualifying L T ds"
  by (simp add: qualifying_def funcDecls_def split: Decl.splits)

lemma qualifying_Nil: "qualifying L T [] = []"
  by (simp add: qualifying_def funcDecls_def)

lemma collectDecls_eq:
  "collectDecls L m ds h =
     (if StructName m = [] \<and> (\<exists>d\<in>set ds. getReceiverTypeName d = ([], None)) then Inl NilDereference
      else Inr (h \<or> qualifying L (StructName m) ds \<noteq> [],
                m\<lparr>funcDecks := funcDecks m
                     @ filter (\<lambda>fd. Name fd \<notin> methodNames m) (qualifying L (StructName m) ds)\<rparr>))"
proof (induction ds arbitrary: m h)
  case Nil
  then show ?case by (simp add: qualifying_Nil)
next
  case (Cons d ds)
  obtain a r where ar: "getReceiverTypeName d = (a, r)" by (cases "getReceiverTypeName d")
  show ?case
  proof (cases r)
    case None
    with ar have a: "a = []" by (simp add: getReceiverTypeName_None)
    have nq: "\<And>fd T. d = DFunc fd \<Longrightarrow> \<not> receiverNamed fd T"
      using ar None getReceiverTypeName_None_iff[of d] by simp
    have q: "qualifying L (StructName m) (d # ds) = qualifying L (StructName m) ds"
      using nq by (cases d) (simp_all add: qualifying_Cons)
    show ?thesis
    proof (cases "StructName m = []")
      case True
      with ar None a show ?thesis by simp
    next
      case False
      with ar None a q Cons.IH[of m h] show ?thesis by simp
    qed
  next
    case (Some fd)
    with ar have d: "d = DFunc fd" and rn: "receiverNamed fd a"
      by (simp_all add: getReceiverTypeName_Some)
    have notNone: "getReceiverTypeName d \<noteq> ([], None)" using ar Some by simp
    have rn': "receiverNamed fd T \<longleftrightarrow> T = a" for T
      using rn by (auto simp: receiverNamed_def split: option.splits list.splits)
    show ?thesis
    proof (cases "a = StructName m")
      case False
      then have "qualifying L (StructName m) (d # ds) = qualifying L (StructName m) ds"
        using d rn' by (auto simp: qualifying_Cons)
      with False ar Some notNone Cons.IH[of m h] show ?thesis by auto
    next
      case True
      show ?thesis
      proof (cases "IsExported L (Name fd)")
        case False
        then have "qualifying L (StructName m) (d # ds) = qualifying L (StructName m) ds"
          using d by (simp add: qualifying_Cons)
        with False True ar Some notNone Cons.IH[of m h] show ?thesis by auto
      next
        case exp: True
        then have q: "qualifying L (StructName m) (d # ds) = fd # qualifying L (StructName m) ds"
          using d rn True by (simp add: qualifying_Cons)
        show ?thesis
        proof (cases "Name fd \<in> methodNames m")
          case True
          with exp \<open>a = StructName m\<close> ar Some notNone q Cons.IH[of m True] show ?thesis by auto
        next
          case False
          with exp \<open>a = StructName m\<close> ar Some notNone q
            Cons.IH[of "m\<lparr>funcDecks := funcDecks m @ [fd]\<rparr>" True] show ?thesis by auto
        qed
      qed
    qed
  qed
qed

section \<open>The import registry\<close>

lemma registerImport_Inr:
  assumes "registerImport L tp m imp = Inr m'"
  shows "importAlias imp = ''.'' \<and> m' = m
       \<or> importAlias imp \<noteq> ''.'' \<and> (\<exists>path. Unquote L (PathValue imp) = Some path \<and>
            (HasSuffix tp path \<and> m' = (if importAlias imp \<noteq> [] then m\<lparr>PkgNameUsedInSourceStruct := importAlias imp\<rparr> else m)
           \<or> \<not> HasSuffix tp path \<and> (\<exists>e. importsByPath m path = Some e \<and> Alias e = importAlias imp) \<and> m' = m
           \<or> \<not> HasSuffix tp path \<and> importsByPath m path = None
               \<and> (importAlias imp = [] \<or> importsByAlias m (importAlias imp) = None)
               \<and> m' = m\<lparr>importsByPath := (importsByPath m)(path \<mapsto> \<lparr>Alias = importAlias imp, Path = path\<rparr>),
                         importsByAlias := (importsByAlias m)(importAlias imp \<mapsto> \<lparr>Alias = importAlias imp, Path = path\<rparr>),
                         imports_list := imports_list m @ [\<lparr>Alias = importAlias imp, Path = path\<rparr>]\<rparr>))"
  using assms
  by (auto simp: registerImport_def Let_def split: if_splits option.splits)

lemma registerImport_frame:
  assumes "registerImport L tp m imp = Inr m'"
  shows "StructName m' = StructName m" "CopyDocs m' = CopyDocs m" "methods m' = methods m"
    "methodNames m' = methodNames m" "funcDecks m' = funcDecks m" "Output m' = Output m"
  using registerImport_Inr[OF assms] by (auto split: if_splits)

lemma registerImport_alias:
  assumes "registerImport L tp m imp = Inr m'"
  shows "PkgNameUsedInSourceStruct m' =
           (if selfImport L tp imp \<and> importAlias imp \<noteq> [] then importAlias imp
            else PkgNameUsedInSourceStruct m)"
  using registerImport_Inr[OF assms] by (auto simp: selfImport_def split: if_splits)

lemma registerImport_mono:
  assumes "registerImport L tp m imp = Inr m'" and "importsByPath m p = Some e"
  shows "importsByPath m' p = Some e"
  using registerImport_Inr[OF assms(1)] assms(2) by (auto split: if_splits)


lemma registerImport_list:
  assumes "registerImport L tp m imp = Inr m'"
  shows "\<exists>news. imports_list m' = imports_list m @ news \<and> (\<forall>q\<in>set news. \<not> HasSuffix tp (Path q))"
  using registerImport_Inr[OF assms] by (auto split: if_splits)

lemma registerImport_registered:
  assumes "registerImport L tp m imp = Inr m'" and "importAlias imp \<noteq> ''.''"
  shows "\<exists>path. Unquote L (PathValue imp) = Some path
           \<and> (\<not> HasSuffix tp path \<longrightarrow> (\<exists>e. importsByPath m' path = Some e \<and> Alias e = importAlias imp))"
  using registerImport_Inr[OF assms(1)] assms(2) by (auto split: if_splits)

lemma registerImport_registryOk:
  assumes "registerImport L tp m imp = Inr m'" and "registryOk m"
  shows "registryOk m'"
proof -
  from registerImport_Inr[OF assms(1)]
  consider "m' = m" | "m' = m\<lparr>PkgNameUsedInSourceStruct := importAlias imp\<rparr>"
    | path where "importsByPath m path = None"
      "m' = m\<lparr>importsByPath := (importsByPath m)(path \<mapsto> \<lparr>Alias = importAlias imp, Path = path\<rparr>),
                         importsByAlias := (importsByAlias m)(importAlias imp \<mapsto> \<lparr>Alias = importAlias imp, Path = path\<rparr>),
                         imports_list := imports_list m @ [\<lparr>Alias = importAlias imp, Path = path\<rparr>]\<rparr>"
    by (auto split: if_splits)
  then show ?thesis
  proof cases
    case 1
    with assms(2) show ?thesis by simp
  next
    case 2
    with assms(2) show ?thesis by (simp add: registryOk_def)
  next
    case 3
    from assms(2) have a: "\<And>a q. importsByAlias m a = Some q \<Longrightarrow> importsByPath m (Path q) = Some q"
      and b: "\<And>p q. importsByPath m p = Some q \<Longrightarrow> Path q = p \<and> q \<in> set (imports_list m)"
      and c: "\<And>q. q \<in> set (imports_list m) \<Longrightarrow> importsByPath m (Path q) = Some q"
      and d: "distinct (map Path (imports_list m))"
      by (auto simp: registryOk_def)
    have notin: "path \<notin> Path ` set (imports_list m)"
      using c 3(1) by force
    have a': "\<And>a q. importsByAlias m a = Some q \<Longrightarrow> Path q \<noteq> path"
      using a 3(1) by force
    show ?thesis
      unfolding registryOk_def 3(2)
      using a a' b c d notin by (auto)
  qed
qed

lemma harvestImports_append:
  "harvestImports L tp m (xs @ ys) =
     (case harvestImports L tp m xs of Inl e \<Rightarrow> Inl e | Inr m' \<Rightarrow> harvestImports L tp m' ys)"
  by (induction xs arbitrary: m) (auto split: sum.splits)

lemma harvestImports_frame:
  assumes "harvestImports L tp m imps = Inr m'"
  shows "StructName m' = StructName m \<and> CopyDocs m' = CopyDocs m \<and> methods m' = methods m
    \<and> methodNames m' = methodNames m \<and> funcDecks m' = funcDecks m \<and> Output m' = Output m"
  using assms
proof (induction imps arbitrary: m)
  case Nil
  then show ?case by simp
next
  case (Cons imp imps)
  then obtain m1 where 1: "registerImport L tp m imp = Inr m1" and 2: "harvestImports L tp m1 imps = Inr m'"
    by (auto split: sum.splits)
  from Cons.IH[OF 2] registerImport_frame[OF 1] show ?case by simp
qed

lemma harvestImports_alias:
  assumes "harvestImports L tp m imps = Inr m'"
  shows "PkgNameUsedInSourceStruct m' = lastSelfAlias L tp (PkgNameUsedInSourceStruct m) imps"
  using assms
proof (induction imps arbitrary: m)
  case Nil
  then show ?case by simp
next
  case (Cons imp imps)
  then obtain m1 where 1: "registerImport L tp m imp = Inr m1" and 2: "harvestImports L tp m1 imps = Inr m'"
    by (auto split: sum.splits)
  from Cons.IH[OF 2] registerImport_alias[OF 1] show ?case by simp
qed

lemma harvestImports_mono:
  assumes "harvestImports L tp m imps = Inr m'" and "importsByPath m p = Some e"
  shows "importsByPath m' p = Some e"
  using assms
proof (induction imps arbitrary: m)
  case Nil
  then show ?case by simp
next
  case (Cons imp imps)
  then obtain m1 where 1: "registerImport L tp m imp = Inr m1" and 2: "harvestImports L tp m1 imps = Inr m'"
    by (auto split: sum.splits)
  from Cons.IH[OF 2 registerImport_mono[OF 1 Cons.prems(2)]] show ?case .
qed


lemma harvestImports_list:
  assumes "harvestImports L tp m imps = Inr m'"
  shows "\<exists>news. imports_list m' = imports_list m @ news \<and> (\<forall>q\<in>set news. \<not> HasSuffix tp (Path q))"
  using assms
proof (induction imps arbitrary: m)
  case Nil
  then show ?case by simp
next
  case (Cons imp imps)
  then obtain m1 where 1: "registerImport L tp m imp = Inr m1" and 2: "harvestImports L tp m1 imps = Inr m'"
    by (auto split: sum.splits)
  from registerImport_list[OF 1] obtain n1 where n1: "imports_list m1 = imports_list m @ n1"
    "\<forall>q\<in>set n1. \<not> HasSuffix tp (Path q)" by blast
  from Cons.IH[OF 2] obtain n2 where n2: "imports_list m' = imports_list m1 @ n2"
    "\<forall>q\<in>set n2. \<not> HasSuffix tp (Path q)" by blast
  from n1 n2 have "imports_list m' = imports_list m @ (n1 @ n2) \<and> (\<forall>q\<in>set (n1 @ n2). \<not> HasSuffix tp (Path q))"
    by auto
  then show ?case by blast
qed

lemma harvestImports_registered:
  assumes "harvestImports L tp m imps = Inr m'" and "imp \<in> set imps" and "importAlias imp \<noteq> ''.''"
  shows "\<exists>path. Unquote L (PathValue imp) = Some path
           \<and> (\<not> HasSuffix tp path \<longrightarrow> (\<exists>e. importsByPath m' path = Some e \<and> Alias e = importAlias imp))"
  using assms
proof (induction imps arbitrary: m)
  case Nil
  then show ?case by simp
next
  case (Cons i imps)
  then obtain m1 where 1: "registerImport L tp m i = Inr m1" and 2: "harvestImports L tp m1 imps = Inr m'"
    by (auto split: sum.splits)
  show ?case
  proof (cases "imp = i")
    case True
    from registerImport_registered[OF 1] True Cons.prems(3)
    obtain path where p: "Unquote L (PathValue imp) = Some path"
      "\<not> HasSuffix tp path \<longrightarrow> (\<exists>e. importsByPath m1 path = Some e \<and> Alias e = importAlias imp)"
      by blast
    with harvestImports_mono[OF 2] show ?thesis by blast
  next
    case False
    with Cons.prems(2) have "imp \<in> set imps" by simp
    from Cons.IH[OF 2 this Cons.prems(3)] show ?thesis .
  qed
qed

lemma harvestImports_registryOk:
  assumes "harvestImports L tp m imps = Inr m'" and "registryOk m"
  shows "registryOk m'"
  using assms
proof (induction imps arbitrary: m)
  case Nil
  then show ?case by simp
next
  case (Cons imp imps)
  then obtain m1 where 1: "registerImport L tp m imp = Inr m1" and 2: "harvestImports L tp m1 imps = Inr m'"
    by (auto split: sum.splits)
  from Cons.IH[OF 2 registerImport_registryOk[OF 1 Cons.prems(2)]] show ?case .
qed

section \<open>Replaying the imports of a file\<close>

lemma lastSelfAlias_last:
  "lastSelfAlias L tp c imps
     = last (c # map importAlias (filter (\<lambda>i. selfImport L tp i \<and> importAlias i \<noteq> []) imps))"
  by (induction imps arbitrary: c) auto

lemma lastSelfAlias_idem:
  "lastSelfAlias L tp (lastSelfAlias L tp c imps) imps = lastSelfAlias L tp c imps"
  by (simp add: lastSelfAlias_last)

lemma harvestImports_replay:
  assumes "\<forall>imp\<in>set imps. importAlias imp \<noteq> ''.'' \<longrightarrow>
             (\<exists>path. Unquote L (PathValue imp) = Some path
                \<and> (\<not> HasSuffix tp path \<longrightarrow> (\<exists>e. importsByPath s path = Some e \<and> Alias e = importAlias imp)))"
  shows "harvestImports L tp s imps
           = Inr (s\<lparr>PkgNameUsedInSourceStruct := lastSelfAlias L tp (PkgNameUsedInSourceStruct s) imps\<rparr>)"
  using assms
proof (induction imps arbitrary: s)
  case Nil
  then show ?case by simp
next
  case (Cons imp imps)
  let ?c = "if selfImport L tp imp \<and> importAlias imp \<noteq> [] then importAlias imp
            else PkgNameUsedInSourceStruct s"
  have step: "registerImport L tp s imp = Inr (s\<lparr>PkgNameUsedInSourceStruct := ?c\<rparr>)"
  proof (cases "importAlias imp = ''.''")
    case True
    then show ?thesis by (simp add: registerImport_def selfImport_def)
  next
    case False
    with Cons.prems obtain path where p: "Unquote L (PathValue imp) = Some path"
      "\<not> HasSuffix tp path \<longrightarrow> (\<exists>e. importsByPath s path = Some e \<and> Alias e = importAlias imp)"
      by auto
    with False show ?thesis
      by (cases "HasSuffix tp path") (auto simp: registerImport_def selfImport_def)
  qed
  have "\<forall>i\<in>set imps. importAlias i \<noteq> ''.'' \<longrightarrow>
             (\<exists>path. Unquote L (PathValue i) = Some path
                \<and> (\<not> HasSuffix tp path \<longrightarrow>
                     (\<exists>e. importsByPath (s\<lparr>PkgNameUsedInSourceStruct := ?c\<rparr>) path = Some e \<and> Alias e = importAlias i)))"
    using Cons.prems by simp
  from Cons.IH[OF this] step show ?case by simp
qed

lemma harvestImports_idem:
  assumes "harvestImports L tp m imps = Inr m'"
    and sameIdx: "importsByPath s = importsByPath m'"
    and sameAlias: "PkgNameUsedInSourceStruct s = PkgNameUsedInSourceStruct m'"
  shows "harvestImports L tp s imps = Inr s"
proof -
  have "\<forall>imp\<in>set imps. importAlias imp \<noteq> ''.'' \<longrightarrow>
             (\<exists>path. Unquote L (PathValue imp) = Some path
                \<and> (\<not> HasSuffix tp path \<longrightarrow> (\<exists>e. importsByPath s path = Some e \<and> Alias e = importAlias imp)))"
    using harvestImports_registered[OF assms(1)] sameIdx by simp
  from harvestImports_replay[OF this]
  have "harvestImports L tp s imps
           = Inr (s\<lparr>PkgNameUsedInSourceStruct := lastSelfAlias L tp (PkgNameUsedInSourceStruct s) imps\<rparr>)" .
  moreover have "lastSelfAlias L tp (PkgNameUsedInSourceStruct s) imps = PkgNameUsedInSourceStruct s"
    using harvestImports_alias[OF assms(1)] sameAlias lastSelfAlias_idem[of L tp "PkgNameUsedInSourceStruct m" imps]
    by simp
  ultimately show ?thesis by simp
qed

subsection \<open>Printing and the method loop\<close>

lemma cleanParams_cong:
  "PkgNameUsedInSourceStruct m = PkgNameUsedInSourceStruct m' \<Longrightarrow> cleanParams m = cleanParams m'"
  by (rule ext) (simp add: cleanParams_def)

lemma printFields_cong:
  "PkgNameUsedInSourceStruct m = PkgNameUsedInSourceStruct m' \<Longrightarrow>
     printFields L m fl buff = printFields L m' fl buff"
  by (induction fl arbitrary: buff) (auto simp: cleanParams_cong[of m m'] split: sum.splits option.splits)

lemma printParameters_cong:
  "PkgNameUsedInSourceStruct m = PkgNameUsedInSourceStruct m' \<Longrightarrow>
     printParameters L m fl = printParameters L m' fl"
  by (simp add: printParameters_def printFields_cong[of m m'] split: option.splits)

lemma methodOf_cong:
  "PkgNameUsedInSourceStruct m = PkgNameUsedInSourceStruct m' \<Longrightarrow> CopyDocs m = CopyDocs m' \<Longrightarrow>
     methodOf L m fd = methodOf L m' fd"
  by (auto simp: methodOf_def printParameters_cong[of m m'] split: sum.splits option.splits)

lemma addMethods_step:
  "addMethods L m (fd # fds) =
     (if Name fd \<in> methodNames m then addMethods L m fds
      else (case methodOf L m fd of
              Inl e \<Rightarrow> Inl e
            | Inr me \<Rightarrow> addMethods L (m\<lparr>methodNames := insert (Name fd) (methodNames m),
                                        methods := methods m @ [me]\<rparr>) fds))"
  by (simp add: methodOf_def Let_def split: sum.splits)

lemma addMethods_eq:
  assumes "addMethods L m fds = Inr m'"
  shows "\<exists>news. m' = m\<lparr>methodNames := methodNames m \<union> Name ` set fds, methods := methods m @ news\<rparr>
           \<and> list_all2 (\<lambda>fd me. methodOf L m fd = Inr me) (first_wins (methodNames m) fds) news"
  using assms
proof (induction fds arbitrary: m)
  case Nil
  then show ?case by simp
next
  case (Cons fd fds)
  show ?case
  proof (cases "Name fd \<in> methodNames m")
    case True
    with Cons.prems have "addMethods L m fds = Inr m'"
      by (simp del: addMethods.simps add: addMethods_step)
    from Cons.IH[OF this] obtain news where
      n: "m' = m\<lparr>methodNames := methodNames m \<union> Name ` set fds, methods := methods m @ news\<rparr>"
         "list_all2 (\<lambda>fd me. methodOf L m fd = Inr me) (first_wins (methodNames m) fds) news"
      by blast
    from True have "methodNames m \<union> Name ` set (fd # fds) = methodNames m \<union> Name ` set fds"
      by auto
    with n True show ?thesis by auto
  next
    case False
    with Cons.prems obtain me where me: "methodOf L m fd = Inr me"
      and rest: "addMethods L (m\<lparr>methodNames := insert (Name fd) (methodNames m),
                                        methods := methods m @ [me]\<rparr>) fds = Inr m'"
      by (auto simp del: addMethods.simps simp add: addMethods_step split: sum.splits)
    let ?m1 = "m\<lparr>methodNames := insert (Name fd) (methodNames m), methods := methods m @ [me]\<rparr>"
    from Cons.IH[OF rest] obtain news where
      n: "m' = ?m1\<lparr>methodNames := methodNames ?m1 \<union> Name ` set fds, methods := methods ?m1 @ news\<rparr>"
         "list_all2 (\<lambda>fd me. methodOf L ?m1 fd = Inr me) (first_wins (methodNames ?m1) fds) news"
      by blast
    have c: "methodOf L ?m1 = methodOf L m"
      by (rule ext) (rule methodOf_cong, simp_all)
    have "m' = m\<lparr>methodNames := methodNames m \<union> Name ` set (fd # fds), methods := methods m @ (me # news)\<rparr>"
      using n(1) by simp
    moreover have "list_all2 (\<lambda>fd me. methodOf L m fd = Inr me) (first_wins (methodNames m) (fd # fds)) (me # news)"
      using n(2) me False c by simp
    ultimately show ?thesis by blast
  qed
qed

section \<open>First occurrences, and ParseSource unfolded\<close>

lemma first_wins_seen: "Name ` set xs \<subseteq> seen \<Longrightarrow> first_wins seen xs = []"
  by (induction xs) auto

lemma first_wins_Nil: "first_wins seen xs = [] \<Longrightarrow> Name ` set xs \<subseteq> seen"
  by (induction xs) (auto split: if_splits)

lemma first_wins_append:
  "first_wins seen (xs @ ys) = first_wins seen xs @ first_wins (seen \<union> Name ` set xs) ys"
proof (induction xs arbitrary: seen)
  case Nil
  show ?case by simp
next
  case (Cons x xs)
  have "insert (Name x) seen \<union> Name ` set xs = seen \<union> Name ` set (x # xs)" by auto
  moreover have "Name x \<in> seen \<Longrightarrow> seen \<union> Name ` set xs = seen \<union> Name ` set (x # xs)" by auto
  ultimately show ?case using Cons[of seen] Cons[of "insert (Name x) seen"] by auto
qed

lemma first_wins_filter:
  "S \<subseteq> seen \<Longrightarrow> first_wins seen (filter (\<lambda>fd. Name fd \<notin> S) xs) = first_wins seen xs"
proof (induction xs arbitrary: seen)
  case Nil
  show ?case by simp
next
  case (Cons x xs)
  from Cons.prems have "S \<subseteq> insert (Name x) seen" by auto
  with Cons.IH[of seen] Cons.IH[of "insert (Name x) seen"] Cons.prems show ?case by auto
qed

lemma first_wins_names: "seen \<union> Name ` set (first_wins seen xs) = seen \<union> Name ` set xs"
proof (induction xs arbitrary: seen)
  case Nil
  show ?case by simp
next
  case (Cons x xs)
  show ?case using Cons[of seen] Cons[of "insert (Name x) seen"] by auto
qed

lemma first_wins_fresh: "fd \<in> set (first_wins seen xs) \<Longrightarrow> Name fd \<notin> seen \<and> fd \<in> set xs"
proof (induction xs arbitrary: seen)
  case Nil
  then show ?case by simp
next
  case (Cons x xs)
  then show ?case by (auto split: if_splits)
qed

lemma first_wins_distinct: "distinct (map Name (first_wins seen xs))"
proof (induction xs arbitrary: seen)
  case Nil
  show ?case by simp
next
  case (Cons x xs)
  have "Name x \<notin> Name ` set (first_wins (insert (Name x) seen) xs)"
  proof
    assume "Name x \<in> Name ` set (first_wins (insert (Name x) seen) xs)"
    then obtain fd where fd: "fd \<in> set (first_wins (insert (Name x) seen) xs)" "Name fd = Name x"
      by auto
    from first_wins_fresh[OF fd(1)] fd(2) show False by simp
  qed
  with Cons show ?case by auto
qed

lemma addMethods_skip_all: "Name ` set fds \<subseteq> methodNames m \<Longrightarrow> addMethods L m fds = Inr m"
  by (induction fds) auto

lemma makeMaps_settled: "settled m \<Longrightarrow> makeMaps m = m"
  by (auto simp: settled_def makeMaps_def)

lemma makeMaps_fields:
  "StructName (makeMaps m) = StructName m" "funcDecks (makeMaps m) = funcDecks m"
  "importsByPath (makeMaps m) = importsByPath m" "importsByAlias (makeMaps m) = importsByAlias m"
  "imports_list (makeMaps m) = imports_list m" "methods (makeMaps m) = methods m"
  "PkgNameUsedInSourceStruct (makeMaps m) = PkgNameUsedInSourceStruct m"
  "Output (makeMaps m) = Output m" "CopyDocs (makeMaps m) = CopyDocs m"
  by (simp_all add: makeMaps_def)

text \<open>The maker after the first loop of ParseSource.\<close>

lemma ParseSource_eq:
  "ParseSource L (Some cwd) (Some a) m =
     (if StructName m = [] \<and> (\<exists>d\<in>set (Decls a). getReceiverTypeName d = ([], None))
      then Inl NilDereference
      else if qualifying L (StructName m) (Decls a) = [] then Inr (makeMaps m)
      else (case harvestImports L (Dir L (cwd @ [PathSeparator L] @ Output m))
                   ((makeMaps m)\<lparr>funcDecks := funcDecks m
                      @ filter (\<lambda>fd. Name fd \<notin> methodNames (makeMaps m))
                          (qualifying L (StructName m) (Decls a))\<rparr>)
                   (Imports a) of
              Inl e \<Rightarrow> Inl e
            | Inr m2 \<Rightarrow> addMethods L m2 (funcDecks m2)))"
  by (auto simp: ParseSource_def collectDecls_eq makeMaps_fields Let_def)

lemma ParseSource_Inr:
  assumes "ParseSource L getwd parsed m = Inr m'"
  shows "\<exists>cwd a. getwd = Some cwd \<and> parsed = Some a"
  using assms by (auto simp: ParseSource_def split: option.splits)

section \<open>One file, and a run of files\<close>

lemma ParseSource_steps:
  assumes ok: "ParseSource L (Some cwd) (Some a) m = Inr m'"
    and q: "qualifying L (StructName m) (Decls a) \<noteq> []"
  shows "\<exists>m2. harvestImports L (Dir L (cwd @ [PathSeparator L] @ Output m))
                 ((makeMaps m)\<lparr>funcDecks := funcDecks m
                      @ filter (\<lambda>fd. Name fd \<notin> methodNames (makeMaps m))
                          (qualifying L (StructName m) (Decls a))\<rparr>)
                 (Imports a) = Inr m2
              \<and> addMethods L m2 (funcDecks m2) = Inr m'"
  using ok q by (auto simp: ParseSource_eq split: if_splits sum.splits)

lemma ParseSource_no_methods:
  assumes ok: "ParseSource L (Some cwd) (Some a) m = Inr m'"
    and q: "qualifying L (StructName m) (Decls a) = []"
  shows "m' = makeMaps m"
  using ok q by (auto simp: ParseSource_eq split: if_splits)

lemma ParseSource_settled:
  assumes ok: "ParseSource L (Some cwd) (Some a) m = Inr m'" and s: "settled m"
  shows "\<exists>news. methods m' = methods m @ news
           \<and> list_all2 (\<lambda>fd me. methodOf L m' fd = Inr me)
                (first_wins (methodNames m) (qualifying L (StructName m) (Decls a))) news
           \<and> methodNames m' = methodNames m \<union> Name ` set (qualifying L (StructName m) (Decls a))
           \<and> settled m' \<and> StructName m' = StructName m \<and> CopyDocs m' = CopyDocs m
           \<and> Output m' = Output m"
proof (cases "qualifying L (StructName m) (Decls a) = []")
  case True
  from ParseSource_no_methods[OF ok True] s have "m' = m" by (simp add: makeMaps_settled)
  with True s show ?thesis by simp
next
  case False
  let ?Q = "qualifying L (StructName m) (Decls a)"
  let ?Q' = "filter (\<lambda>fd. Name fd \<notin> methodNames m) ?Q"
  let ?m1 = "m\<lparr>funcDecks := funcDecks m @ ?Q'\<rparr>"
  from ParseSource_steps[OF ok False] s obtain m2 where
    h: "harvestImports L (Dir L (cwd @ [PathSeparator L] @ Output m)) ?m1 (Imports a) = Inr m2"
    and am: "addMethods L m2 (funcDecks m2) = Inr m'"
    by (auto simp: makeMaps_settled)
  from harvestImports_frame[OF h] have f2: "StructName m2 = StructName m" "CopyDocs m2 = CopyDocs m"
    "methods m2 = methods m" "methodNames m2 = methodNames m" "funcDecks m2 = funcDecks m @ ?Q'"
    "Output m2 = Output m" by simp_all
  from addMethods_eq[OF am] obtain news where
    m': "m' = m2\<lparr>methodNames := methodNames m2 \<union> Name ` set (funcDecks m2), methods := methods m2 @ news\<rparr>"
    and rel: "list_all2 (\<lambda>fd me. methodOf L m2 fd = Inr me) (first_wins (methodNames m2) (funcDecks m2)) news"
    by blast
  from s have old: "Name ` set (funcDecks m) \<subseteq> methodNames m" by (simp add: settled_def)
  have fw: "first_wins (methodNames m2) (funcDecks m2) = first_wins (methodNames m) ?Q"
  proof -
    have "first_wins (methodNames m) (funcDecks m @ ?Q')
            = first_wins (methodNames m) (funcDecks m)
              @ first_wins (methodNames m \<union> Name ` set (funcDecks m)) ?Q'"
      by (rule first_wins_append)
    also have "first_wins (methodNames m) (funcDecks m) = []" using old by (rule first_wins_seen)
    also have "methodNames m \<union> Name ` set (funcDecks m) = methodNames m" using old by auto
    also have "first_wins (methodNames m) ?Q' = first_wins (methodNames m) ?Q"
      by (rule first_wins_filter) simp
    finally show ?thesis using f2 by simp
  qed
  have c: "methodOf L m2 = methodOf L m'"
    by (rule ext) (rule methodOf_cong, simp_all add: m')
  have names: "methodNames m' = methodNames m \<union> Name ` set ?Q"
    using old by (auto simp: m' f2)
  have set': "settled m'"
  proof -
    have "Name ` set (funcDecks m') \<subseteq> methodNames m'" by (auto simp: m' f2)
    moreover have "methodNames m' = {}" if "methods m' = []"
    proof -
      from that have "methods m = []" "news = []" by (simp_all add: m' f2)
      with s have e: "methodNames m = {}" by (simp add: settled_def)
      from \<open>news = []\<close> rel fw have "first_wins (methodNames m) ?Q = []" by simp
      from first_wins_Nil[OF this] e have "?Q = []" by simp
      with False show ?thesis by simp
    qed
    ultimately show ?thesis by (simp add: settled_def)
  qed
  have "methods m' = methods m @ news" by (simp add: m' f2)
  moreover have "list_all2 (\<lambda>fd me. methodOf L m' fd = Inr me) (first_wins (methodNames m) ?Q) news"
    using rel fw c by simp
  moreover have "StructName m' = StructName m \<and> CopyDocs m' = CopyDocs m \<and> Output m' = Output m"
    by (simp add: m' f2)
  ultimately show ?thesis using names set' by blast
qed

lemma ParseSource_idem:
  assumes ok: "ParseSource L getwd parsed m = Inr m'" and s: "settled m"
  shows "ParseSource L getwd parsed m' = Inr m'"
proof -
  from ParseSource_Inr[OF ok] obtain cwd a where ga: "getwd = Some cwd" "parsed = Some a" by blast
  note ok' = ok[unfolded ga]
  from ParseSource_settled[OF ok' s] have
    names: "methodNames m' = methodNames m \<union> Name ` set (qualifying L (StructName m) (Decls a))"
    and s': "settled m'" and sn: "StructName m' = StructName m" and out: "Output m' = Output m"
    by blast+
  from ok' have nopanic: "\<not> (StructName m = [] \<and> (\<exists>d\<in>set (Decls a). getReceiverTypeName d = ([], None)))"
    by (auto simp: ParseSource_eq split: if_splits)
  show ?thesis
  proof (cases "qualifying L (StructName m) (Decls a) = []")
    case True
    from ParseSource_no_methods[OF ok' True] s have "m' = m" by (simp add: makeMaps_settled)
    with True nopanic s show ?thesis by (simp add: ga ParseSource_eq makeMaps_settled)
  next
    case False
    let ?Q = "qualifying L (StructName m) (Decls a)"
    let ?tp = "Dir L (cwd @ [PathSeparator L] @ Output m)"
    from ParseSource_steps[OF ok' False] obtain m1 m2 where
      h: "harvestImports L ?tp m1 (Imports a) = Inr m2"
      and am: "addMethods L m2 (funcDecks m2) = Inr m'"
      by blast
    from addMethods_eq[OF am] have same: "importsByPath m' = importsByPath m2"
      "PkgNameUsedInSourceStruct m' = PkgNameUsedInSourceStruct m2" by auto
    have h': "harvestImports L ?tp m' (Imports a) = Inr m'"
      by (rule harvestImports_idem[OF h same])
    have none: "filter (\<lambda>fd. Name fd \<notin> methodNames m') ?Q = []"
      using names by (auto simp: filter_empty_conv)
    have am': "addMethods L m' (funcDecks m') = Inr m'"
      using s' by (intro addMethods_skip_all) (simp add: settled_def)
    show ?thesis
      using nopanic False h' am' none
      by (simp add: ga ParseSource_eq sn out makeMaps_settled[OF s'])
  qed
qed

lemma parseAll_settled:
  assumes "parseAll L getwd (map Some files) m = Inr m'" and "settled m"
  shows "\<exists>news. methods m' = methods m @ news
           \<and> list_all2 (\<lambda>fd me. \<exists>alias. methodOf L (m\<lparr>PkgNameUsedInSourceStruct := alias\<rparr>) fd = Inr me)
                (first_wins (methodNames m)
                   (concat (map (\<lambda>a. qualifying L (StructName m) (Decls a)) files))) news
           \<and> methodNames m' = methodNames m
                \<union> Name ` set (concat (map (\<lambda>a. qualifying L (StructName m) (Decls a)) files))
           \<and> settled m' \<and> StructName m' = StructName m \<and> CopyDocs m' = CopyDocs m
           \<and> Output m' = Output m"
  using assms
proof (induction files arbitrary: m)
  case Nil
  then show ?case by simp
next
  case (Cons a fs)
  let ?Q = "qualifying L (StructName m) (Decls a)"
  let ?R = "concat (map (\<lambda>a. qualifying L (StructName m) (Decls a)) fs)"
  from Cons.prems(1) obtain m1 where 1: "ParseSource L getwd (Some a) m = Inr m1"
    and 2: "parseAll L getwd (map Some fs) m1 = Inr m'"
    by (auto split: sum.splits)
  from ParseSource_Inr[OF 1] obtain cwd where g: "getwd = Some cwd" by blast
  from ParseSource_settled[OF 1[unfolded g] Cons.prems(2)] obtain n1 where
    a1: "methods m1 = methods m @ n1"
    and r1: "list_all2 (\<lambda>fd me. methodOf L m1 fd = Inr me) (first_wins (methodNames m) ?Q) n1"
    and nm1: "methodNames m1 = methodNames m \<union> Name ` set ?Q"
    and s1: "settled m1" and f1: "StructName m1 = StructName m" "CopyDocs m1 = CopyDocs m"
      "Output m1 = Output m"
    by blast
  from Cons.IH[OF 2 s1] f1 obtain n2 where
    a2: "methods m' = methods m1 @ n2"
    and r2: "list_all2 (\<lambda>fd me. \<exists>alias. methodOf L (m1\<lparr>PkgNameUsedInSourceStruct := alias\<rparr>) fd = Inr me)
                (first_wins (methodNames m1) ?R) n2"
    and nm2: "methodNames m' = methodNames m1 \<union> Name ` set ?R"
    and s2: "settled m'" and f2: "StructName m' = StructName m" "CopyDocs m' = CopyDocs m"
      "Output m' = Output m"
    by auto
  have c1: "methodOf L m1 fd = methodOf L (m\<lparr>PkgNameUsedInSourceStruct := PkgNameUsedInSourceStruct m1\<rparr>) fd" for fd
    by (rule methodOf_cong) (simp_all add: f1)
  have c2: "methodOf L (m1\<lparr>PkgNameUsedInSourceStruct := al\<rparr>) fd
              = methodOf L (m\<lparr>PkgNameUsedInSourceStruct := al\<rparr>) fd" for fd al
    by (rule methodOf_cong) (simp_all add: f1)
  have r1': "list_all2 (\<lambda>fd me. \<exists>alias. methodOf L (m\<lparr>PkgNameUsedInSourceStruct := alias\<rparr>) fd = Inr me)
               (first_wins (methodNames m) ?Q) n1"
    using r1 by (rule list_all2_mono) (auto simp: c1)
  have r2': "list_all2 (\<lambda>fd me. \<exists>alias. methodOf L (m\<lparr>PkgNameUsedInSourceStruct := alias\<rparr>) fd = Inr me)
               (first_wins (methodNames m \<union> Name ` set ?Q) ?R) n2"
    using r2 by (simp add: c2 nm1)
  have "methods m' = methods m @ (n1 @ n2)" using a1 a2 by simp
  moreover have "list_all2 (\<lambda>fd me. \<exists>alias. methodOf L (m\<lparr>PkgNameUsedInSourceStruct := alias\<rparr>) fd = Inr me)
       (first_wins (methodNames m) (concat (map (\<lambda>a. qualifying L (StructName m) (Decls a)) (a # fs))))
       (n1 @ n2)"
    using r1' r2' by (simp add: first_wins_append list_all2_appendI)
  moreover have "methodNames m' = methodNames m
       \<union> Name ` set (concat (map (\<lambda>a. qualifying L (StructName m) (Decls a)) (a # fs)))"
    using nm1 nm2 by auto
  ultimately show ?case using s2 f2 by blast
qed

section \<open>Split and cleanParams\<close>

lemma Split_not_Nil: "Split s c \<noteq> []"
  by (induction s) (auto split: list.splits)

lemma Split_no_sep: "c \<notin> set a \<Longrightarrow> Split a c = [a]"
  by (induction a) auto

lemma Split_at_first: "c \<notin> set a \<Longrightarrow> Split (a @ c # b) c = a # Split b c"
  by (induction a) auto

lemma Split_decompose:
  "Split s c = a # b # rest \<Longrightarrow> \<exists>t. s = a @ c # t \<and> c \<notin> set a \<and> Split t c = b # rest"
proof (induction s arbitrary: a)
  case Nil
  then show ?case by simp
next
  case (Cons x xs)
  show ?case
  proof (cases "x = c")
    case True
    with Cons.prems show ?thesis by auto
  next
    case False
    with Cons.prems obtain p where p: "Split xs c = p # b # rest" "a = x # p"
      by (auto split: list.splits)
    from Cons.IH[OF p(1)] obtain t where "xs = p @ c # t" "c \<notin> set p" "Split t c = b # rest"
      by blast
    with p False show ?thesis by auto
  qed
qed

lemma Split_single: "Split s c = [a] \<Longrightarrow> s = a \<and> c \<notin> set a"
  by (induction s arbitrary: a) (auto split: if_splits list.splits simp: Split_not_Nil)

lemma Split_two:
  "Split s c = [a, b] \<longleftrightarrow> s = a @ c # b \<and> c \<notin> set a \<and> c \<notin> set b"
proof
  assume h: "Split s c = [a, b]"
  from Split_decompose[OF h] obtain t where t: "s = a @ c # t" "c \<notin> set a" "Split t c = [b]"
    by blast
  from Split_single[OF t(3)] t show "s = a @ c # b \<and> c \<notin> set a \<and> c \<notin> set b" by simp
next
  assume "s = a @ c # b \<and> c \<notin> set a \<and> c \<notin> set b"
  then show "Split s c = [a, b]" by (simp add: Split_at_first Split_no_sep)
qed

lemma length_two_iff: "length xs = 2 \<longleftrightarrow> (\<exists>a b. xs = [a, b])"
  by (cases xs; cases "tl xs") (auto simp: numeral_2_eq_2)

lemma cleanParams_strip:
  assumes "CHR ''.'' \<notin> set (PkgNameUsedInSourceStruct m)" and "CHR ''.'' \<notin> set x"
  shows "cleanParams m (PkgNameUsedInSourceStruct m @ CHR ''.'' # x) = x"
proof -
  have "Split (PkgNameUsedInSourceStruct m @ CHR ''.'' # x) (CHR ''.'') = [PkgNameUsedInSourceStruct m, x]"
    using assms by (simp add: Split_two)
  then show ?thesis by (simp add: cleanParams_def)
qed

lemma cleanParams_changed:
  assumes "cleanParams m param \<noteq> param"
  shows "param = PkgNameUsedInSourceStruct m @ CHR ''.'' # cleanParams m param
         \<and> CHR ''.'' \<notin> set (PkgNameUsedInSourceStruct m) \<and> CHR ''.'' \<notin> set (cleanParams m param)"
proof -
  from assms have l: "length (Split param (CHR ''.'')) = 2"
    and h: "Split param (CHR ''.'') ! 0 = PkgNameUsedInSourceStruct m"
    by (auto simp: cleanParams_def Let_def split: if_splits)
  from l obtain a b where ab: "Split param (CHR ''.'') = [a, b]"
    by (auto simp: length_two_iff)
  with h l have "cleanParams m param = b" "a = PkgNameUsedInSourceStruct m"
    by (simp_all add: cleanParams_def)
  with ab show ?thesis by (simp add: Split_two)
qed

subsection \<open>Qualifier stripping (C8)\<close>

text \<open>
  C8, as the claim states it, fails: the printed type of a generic instance of a type of
  the source package, \<^verbatim>\<open>pkg.Widget[int]\<close>, is not the alias, a dot and an identifier, so
  the claim leaves it untouched; \<^verbatim>\<open>cleanParams\<close> splits it at its only dot and returns
  \<^verbatim>\<open>Widget[int]\<close>.
\<close>

theorem cleanParams_generic_instance:
  "cleanParams exMakerPkg ''pkg.Widget[int]'' = ''Widget[int]''
   \<and> qualifierStripped (PkgNameUsedInSourceStruct exMakerPkg) ''pkg.Widget[int]'' = ''pkg.Widget[int]''
   \<and> qualifierStripped (PkgNameUsedInSourceStruct exMakerPkg) ''pkg.Widget'' = ''Widget''"
  by (simp add: cleanParams_def exMakerPkg_def qualifierStripped_def isIdentifier_def identChar_def)

text \<open>
  C8, amended: a printed type is rewritten exactly when it has one dot and the text
  before the dot is the source package alias; it becomes the text after the dot. That
  text is the bare identifier for \<^verbatim>\<open>alias.Ident\<close>. Every other printed type is
  returned as it is.
\<close>

theorem cleanParams_one_dot:
  "(CHR ''.'' \<notin> set (PkgNameUsedInSourceStruct m) \<and> CHR ''.'' \<notin> set x
      \<longrightarrow> cleanParams m (PkgNameUsedInSourceStruct m @ ''.'' @ x) = x)
   \<and> (cleanParams m param \<noteq> param
      \<longrightarrow> param = PkgNameUsedInSourceStruct m @ ''.'' @ cleanParams m param
          \<and> CHR ''.'' \<notin> set (PkgNameUsedInSourceStruct m)
          \<and> CHR ''.'' \<notin> set (cleanParams m param))"
  using cleanParams_strip[of m x] cleanParams_changed[of m param] by simp

text \<open>With the alias \<open>pkg\<close>: the plain qualified name loses its qualifier; the pointer, the
  slice, the function type and the other qualifier stay.\<close>

theorem cleanParams_one_dot_witness:
  "cleanParams exMakerPkg ''pkg.Widget'' = ''Widget''
   \<and> cleanParams exMakerPkg ''*pkg.Widget'' = ''*pkg.Widget''
   \<and> cleanParams exMakerPkg ''[]pkg.Widget'' = ''[]pkg.Widget''
   \<and> cleanParams exMakerPkg ''func(pkg.Widget) other.Thing'' = ''func(pkg.Widget) other.Thing''
   \<and> cleanParams exMakerPkg ''other.Widget'' = ''other.Widget''"
proof -
  have a: "PkgNameUsedInSourceStruct exMakerPkg = ''pkg''" by (simp add: exMakerPkg_def)
  have 1: "cleanParams exMakerPkg ''pkg.Widget'' = ''Widget''"
    using cleanParams_one_dot[of exMakerPkg "''Widget''" "''pkg.Widget''"] by (simp add: a)
  have 2: "cleanParams exMakerPkg p = p" if "\<not> (\<exists>x. p = ''pkg.'' @ x \<and> CHR ''.'' \<notin> set x)" for p
    using cleanParams_one_dot[of exMakerPkg "''Widget''" p] that by (auto simp: a)
  have 3: "cleanParams exMakerPkg ''*pkg.Widget'' = ''*pkg.Widget''" by (rule 2) simp
  have 4: "cleanParams exMakerPkg ''[]pkg.Widget'' = ''[]pkg.Widget''" by (rule 2) simp
  have 5: "cleanParams exMakerPkg ''func(pkg.Widget) other.Thing'' = ''func(pkg.Widget) other.Thing''"
    by (rule 2) simp
  have 6: "cleanParams exMakerPkg ''other.Widget'' = ''other.Widget''" by (rule 2) simp
  from 1 3 4 5 6 show ?thesis by simp
qed

section \<open>Rendering (C7, C10)\<close>

lemma foldl_append_concat: "foldl (\<lambda>out x. out @ f x) acc xs = acc @ concat (map f xs)"
  by (induction xs arbitrary: acc) auto

text \<open>
  C7: the text before formatting is, joined by newlines and in this order: the marker
  comment, an empty line, the package clause, the opening of the import block, one line
  per import of the import list in the order of the list (the alias, a space, the quoted
  path), the closing of the block, the opening of the interface with its name, for each
  method of the method list in the order of the list its doc lines and then its
  signature, and the closing brace. No import and no method is moved.
\<close>

theorem makeInterface_layout:
  "makeInterface L m pkgName ifaceName =
     Join ([''// Code generated by ifacemaker. DO NOT EDIT.'', '''', ''package '' @ pkgName, ''import ('']
           @ map (\<lambda>i. Alias i @ '' '' @ Quote L (Path i)) (imports_list m)
           @ ['')'', ''type '' @ ifaceName @ '' interface {'']
           @ concat (map (\<lambda>me. Docs me @ [Code me]) (methods m))
           @ [''}'']) [CHR 0x0A]"
proof -
  have i: "concat (map (importedPkg_Lines L) (imports_list m))
             = map (\<lambda>i. Alias i @ '' '' @ Quote L (Path i)) (imports_list m)"
    by (induction "imports_list m") (simp_all add: importedPkg_Lines_def concat_map_singleton)
  have me: "map method_Lines (methods m) = map (\<lambda>me. Docs me @ [Code me]) (methods m)"
    by (simp add: method_Lines_def)
  show ?thesis
    by (simp add: makeInterface_def Let_def foldl_append_concat i me del: Join.simps)
qed

text \<open>
  C10: \<^verbatim>\<open>MakeInterface\<close> leaves the maker as it was, every field of it, and a second call
  with the same names, in the same process state, returns what the first returned.
\<close>

theorem MakeInterface_read_only:
  "snd (MakeInterface L env pkgName ifaceName m) = m
   \<and> fst (MakeInterface L env pkgName ifaceName (snd (MakeInterface L env pkgName ifaceName m)))
       = fst (MakeInterface L env pkgName ifaceName m)"
proof -
  have "snd (MakeInterface L env pkgName ifaceName m) = m"
    by (simp add: MakeInterface_def Let_def split: sum.splits)
  then show ?thesis by simp
qed

section \<open>Runs from a new maker, and errors of the import loop\<close>

lemma settled_newMaker: "settled (newMaker args)"
  by (simp add: settled_def newMaker_def)


lemma first_wins_distinct_id:
  "distinct (map Name xs) \<Longrightarrow> Name ` set xs \<inter> seen = {} \<Longrightarrow> first_wins seen xs = xs"
  by (induction xs arbitrary: seen) auto

lemma parseAll_append:
  "parseAll L getwd (xs @ ys) m =
     (case parseAll L getwd xs m of Inl e \<Rightarrow> Inl e | Inr m' \<Rightarrow> parseAll L getwd ys m')"
  by (induction xs arbitrary: m) (auto split: sum.splits)

lemma registerImport_pending:
  "registerImport L tp (m\<lparr>methodNames := A, funcDecks := B\<rparr>) imp
     = map_sum id (\<lambda>s. s\<lparr>methodNames := A, funcDecks := B\<rparr>) (registerImport L tp m imp)"
  by (auto simp: registerImport_def Let_def split: option.splits)

lemma harvestImports_pending:
  "harvestImports L tp (m\<lparr>methodNames := A, funcDecks := B\<rparr>) imps
     = map_sum id (\<lambda>s. s\<lparr>methodNames := A, funcDecks := B\<rparr>) (harvestImports L tp m imps)"
proof (induction imps arbitrary: m)
  case Nil
  show ?case by simp
next
  case (Cons imp imps)
  show ?case
  proof (cases "registerImport L tp m imp")
    case (Inl e)
    then show ?thesis by (simp add: registerImport_pending)
  next
    case (Inr m1)
    with Cons[of m1] show ?thesis by (simp add: registerImport_pending)
  qed
qed

lemma makeMaps_pending:
  "(makeMaps m)\<lparr>funcDecks := B\<rparr> = m\<lparr>methodNames := methodNames (makeMaps m), funcDecks := B\<rparr>"
  by (simp add: makeMaps_def)

text \<open>
  A file that yields methods fails with the error of its imports, when harvesting them
  from the maker before the file fails.
\<close>

lemma ParseSource_harvest_error:
  assumes "qualifying L (StructName m) (Decls a) \<noteq> []" and "StructName m \<noteq> []"
    and "harvestImports L (Dir L (cwd @ [PathSeparator L] @ Output m)) m (Imports a) = Inl e"
  shows "ParseSource L (Some cwd) (Some a) m = Inl e"
  using assms by (simp add: ParseSource_eq makeMaps_pending harvestImports_pending)

lemma harvestImports_stops:
  assumes "harvestImports L tp m pre = Inr m2" and "registerImport L tp m2 imp = Inl e"
  shows "harvestImports L tp m (pre @ imp # post) = Inl e"
  using assms by (simp add: harvestImports_append)

lemma errorAlias_cases: "errorAlias [] = ''<none>''" "al \<noteq> [] \<Longrightarrow> errorAlias al = al"
  by (simp_all add: errorAlias_def)

section \<open>Evaluating the examples\<close>

lemmas ex_defs = exDecls_def exGet_def exReset_def exHelper_def exBarGet_def exPair_def exDeep_def
  exFar_def exSet_def exGetAgain_def exFoo_def exFirst_def exSecond_def exThird_def exAgain_def
  exMixed_def
  impSpec_def exArgs_def exArgsOut_def exArgsHere_def newMaker_def

lemmas lib_defs = example_lib_def example_Unquote_def example_Quote_def example_IsExported_def
  plainText_def unix_Dir_def unix_Clean_def

lemmas run_defs = ParseSource_def makeMaps_def registerImport_def importAlias_def HasSuffix_def
  printParameters_def cleanParams_def errorAlias_def Let_def

section \<open>Alias conflicts (C3) and aliases in use (C4)\<close>

text \<open>
  C3: in a file that yielded methods, when the imports before it have been processed
  and a non-dot, non-self import finds its path registered with another alias,
  \<^verbatim>\<open>ParseSource\<close> fails with the error whose message holds the quoted path, the
  registered alias and the new alias, an empty alias written \<^verbatim>\<open><none>\<close>. When the path
  is registered with the same alias, the import changes nothing and raises no error.
\<close>

theorem alias_conflict:
  assumes "qualifying L (StructName m) (Decls a) \<noteq> []" and "StructName m \<noteq> []"
    and "Imports a = pre @ imp # post"
    and "harvestImports L (Dir L (cwd @ [PathSeparator L] @ Output m)) m pre = Inr m2"
    and "importAlias imp \<noteq> ''.''" and "Unquote L (PathValue imp) = Some path"
    and "\<not> HasSuffix (Dir L (cwd @ [PathSeparator L] @ Output m)) path"
    and "importsByPath m2 path = Some existing"
  shows "(Alias existing \<noteq> importAlias imp \<longrightarrow>
            ParseSource L (Some cwd) (Some a) m
              = Inl (Errorf (''Package '' @ Quote L path
                      @ '' imported multiple times with different aliases: ''
                      @ errorAlias (Alias existing) @ '', '' @ errorAlias (importAlias imp))))
         \<and> (Alias existing = importAlias imp \<longrightarrow>
              registerImport L (Dir L (cwd @ [PathSeparator L] @ Output m)) m2 imp = Inr m2)
         \<and> errorAlias [] = ''<none>'' \<and> (\<forall>al. al \<noteq> [] \<longrightarrow> errorAlias al = al)"
proof -
  let ?tp = "Dir L (cwd @ [PathSeparator L] @ Output m)"
  let ?e = "Errorf (''Package '' @ Quote L path
                      @ '' imported multiple times with different aliases: ''
                      @ errorAlias (Alias existing) @ '', '' @ errorAlias (importAlias imp))"
  have conflict: "ParseSource L (Some cwd) (Some a) m = Inl ?e" if d: "Alias existing \<noteq> importAlias imp"
  proof -
    have "registerImport L ?tp m2 imp = Inl ?e"
      using assms(5-8) d by (simp add: registerImport_def)
    from harvestImports_stops[OF assms(4) this] assms(3)
    have "harvestImports L ?tp m (Imports a) = Inl ?e" by simp
    from ParseSource_harvest_error[OF assms(1,2) this] show ?thesis .
  qed
  have same: "registerImport L ?tp m2 imp = Inr m2" if "Alias existing = importAlias imp"
    using assms(5-8) that by (simp add: registerImport_def)
  from conflict same show ?thesis by (simp add: errorAlias_cases)
qed

text \<open>After a file that imports \<^verbatim>\<open>q "x/y"\<close>: a file that imports \<^verbatim>\<open>r "x/y"\<close> fails, and
  the import \<^verbatim>\<open>q "x/y"\<close> once more changes nothing.\<close>

theorem alias_conflict_witness:
  "(case ParseSource example_lib (Some ''/home/u/work'') (Some exFirst) (newMaker exArgs) of
      Inl e \<Rightarrow> False
    | Inr m1 \<Rightarrow>
        ParseSource example_lib (Some ''/home/u/work'') (Some exSecond) m1
          = Inl (Errorf (''Package '' @ [CHR 0x22] @ ''x/y'' @ [CHR 0x22]
                   @ '' imported multiple times with different aliases: q, r''))
        \<and> registerImport example_lib ''/home/u/work'' m1 (impSpec (Some ''q'') ''x/y'') = Inr m1)"
proof -
  obtain m1 where m1: "ParseSource example_lib (Some ''/home/u/work'') (Some exFirst) (newMaker exArgs) = Inr m1"
    by (simp add: ex_defs lib_defs run_defs)
  then have f: "StructName m1 = ''Foo''" "Output m1 = []"
    "importsByPath m1 ''x/y'' = Some \<lparr>Alias = ''q'', Path = ''x/y''\<rparr>"
    by (auto simp: ex_defs lib_defs run_defs)
  have tp: "Dir example_lib (''/home/u/work'' @ [PathSeparator example_lib] @ Output m1) = ''/home/u/work''"
    by (simp add: f lib_defs)
  have q: "qualifying example_lib (StructName m1) (Decls exSecond) \<noteq> []"
    by (simp add: f qualifying_def funcDecls_def receiverNamed_def ex_defs lib_defs)
  have q': "qualifying example_lib (StructName m1) (Decls exFirst) \<noteq> []"
    by (simp add: f qualifying_def funcDecls_def receiverNamed_def ex_defs lib_defs)
  have sn: "StructName m1 \<noteq> []" by (simp add: f)
  have h: "harvestImports example_lib
             (Dir example_lib (''/home/u/work'' @ [PathSeparator example_lib] @ Output m1)) m1 [] = Inr m1"
    by simp
  have 1: "ParseSource example_lib (Some ''/home/u/work'') (Some exSecond) m1
          = Inl (Errorf (''Package '' @ [CHR 0x22] @ ''x/y'' @ [CHR 0x22]
                   @ '' imported multiple times with different aliases: q, r''))"
    using alias_conflict[OF q sn _ h, of "impSpec (Some ''r'') ''x/y''" "[]" "''x/y''"
            "\<lparr>Alias = ''q'', Path = ''x/y''\<rparr>"]
    by (simp add: tp f exSecond_def impSpec_def importAlias_def HasSuffix_def lib_defs errorAlias_def)
  have 2: "registerImport example_lib ''/home/u/work'' m1 (impSpec (Some ''q'') ''x/y'') = Inr m1"
    using alias_conflict[OF q' sn _ h, of "impSpec (Some ''q'') ''x/y''" "[]" "''x/y''"
            "\<lparr>Alias = ''q'', Path = ''x/y''\<rparr>"]
    by (simp add: tp f exFirst_def impSpec_def importAlias_def HasSuffix_def lib_defs)
  from m1 1 2 show ?thesis by simp
qed



subsection \<open>The registry of every run\<close>

text \<open>The registry invariant that C4 assumes holds for every maker a run builds.\<close>

lemma registryOk_cong:
  "importsByPath m = importsByPath m' \<Longrightarrow> importsByAlias m = importsByAlias m' \<Longrightarrow>
     imports_list m = imports_list m' \<Longrightarrow> registryOk m = registryOk m'"
  by (simp add: registryOk_def)

lemma ParseSource_registryOk:
  assumes ok: "ParseSource L getwd parsed m = Inr m'" and r: "registryOk m"
  shows "registryOk m'"
proof -
  from ParseSource_Inr[OF ok] obtain cwd a where ga: "getwd = Some cwd" "parsed = Some a" by blast
  note ok' = ok[unfolded ga]
  show ?thesis
  proof (cases "qualifying L (StructName m) (Decls a) = []")
    case True
    from ParseSource_no_methods[OF ok' True] have "m' = makeMaps m" .
    with r show ?thesis by (simp add: registryOk_cong[of "makeMaps m" m] makeMaps_fields)
  next
    case False
    from ParseSource_steps[OF ok' False] obtain m2 where
      h: "harvestImports L (Dir L (cwd @ [PathSeparator L] @ Output m))
                 ((makeMaps m)\<lparr>funcDecks := funcDecks m
                      @ filter (\<lambda>fd. Name fd \<notin> methodNames (makeMaps m))
                          (qualifying L (StructName m) (Decls a))\<rparr>)
                 (Imports a) = Inr m2"
      and am: "addMethods L m2 (funcDecks m2) = Inr m'"
      by blast
    have "registryOk ((makeMaps m)\<lparr>funcDecks := funcDecks m
                      @ filter (\<lambda>fd. Name fd \<notin> methodNames (makeMaps m))
                          (qualifying L (StructName m) (Decls a))\<rparr>)"
      using r by (simp add: registryOk_def makeMaps_fields)
    from harvestImports_registryOk[OF h this] have r2: "registryOk m2" .
    from addMethods_eq[OF am] obtain news where
      "m' = m2\<lparr>methodNames := methodNames m2 \<union> Name ` set (funcDecks m2), methods := methods m2 @ news\<rparr>"
      by blast
    with r2 show ?thesis by (simp add: registryOk_def)
  qed
qed

lemma parseAll_registryOk:
  assumes "parseAll L getwd ps m = Inr m'" and "registryOk m"
  shows "registryOk m'"
  using assms
proof (induction ps arbitrary: m)
  case Nil
  then show ?case by simp
next
  case (Cons p ps)
  then obtain m1 where 1: "ParseSource L getwd p m = Inr m1" and 2: "parseAll L getwd ps m1 = Inr m'"
    by (auto split: sum.splits)
  from Cons.IH[OF 2 ParseSource_registryOk[OF 1 Cons.prems(2)]] show ?case .
qed

section \<open>The working directory (C9)\<close>

lemma ParseSource_Output:
  assumes ok: "ParseSource L getwd parsed m = Inr m'"
  shows "Output m' = Output m"
proof -
  from ParseSource_Inr[OF ok] obtain cwd a where ga: "getwd = Some cwd" "parsed = Some a" by blast
  note ok' = ok[unfolded ga]
  show ?thesis
  proof (cases "qualifying L (StructName m) (Decls a) = []")
    case True
    from ParseSource_no_methods[OF ok' True] show ?thesis by (simp add: makeMaps_fields)
  next
    case False
    from ParseSource_steps[OF ok' False] obtain m1 m2 where
      h: "harvestImports L (Dir L (cwd @ [PathSeparator L] @ Output m)) m1 (Imports a) = Inr m2"
      and m1: "Output m1 = Output m"
      and am: "addMethods L m2 (funcDecks m2) = Inr m'"
      by (auto simp: makeMaps_fields)
    from addMethods_eq[OF am] harvestImports_frame[OF h] m1 show ?thesis by auto
  qed
qed

text \<open>
  C9, as the claim states it, fails: the same file and the same command line, with the
  output file \<^verbatim>\<open>iface.go\<close>, give another interface in another working directory.
  In \<^verbatim>\<open>/home/u/proj\<close> the import \<^verbatim>\<open>p "proj"\<close> is taken for the package of the output
  and \<^verbatim>\<open>p.Widget\<close> is printed \<^verbatim>\<open>Widget\<close>; in \<^verbatim>\<open>/home/u/work\<close> the import is listed and
  the qualifier stays. The formatter of the example returns its input in both, so the
  difference is the one that \<^verbatim>\<open>ParseSource\<close> makes.
\<close>

theorem run_depends_on_working_directory:
  "run example_lib ''/home/u/proj'' exArgsHere [Some exFoo]
     \<noteq> run example_lib ''/home/u/work'' exArgsHere [Some exFoo]"
  by (simp add: run_def MakeInterface_def formatCode_def makeInterface_def method_Lines_def
      importedPkg_Lines_def ex_defs lib_defs run_defs)

lemma ParseSource_same_target:
  assumes "Dir L (cwd1 @ [PathSeparator L] @ Output m) = Dir L (cwd2 @ [PathSeparator L] @ Output m)"
  shows "ParseSource L (Some cwd1) parsed m = ParseSource L (Some cwd2) parsed m"
  using assms by (simp add: ParseSource_def)

lemma parseAll_same_target:
  assumes "Dir L (cwd1 @ [PathSeparator L] @ Output m) = Dir L (cwd2 @ [PathSeparator L] @ Output m)"
  shows "parseAll L (Some cwd1) ps m = parseAll L (Some cwd2) ps m"
  using assms
proof (induction ps arbitrary: m)
  case Nil
  show ?case by simp
next
  case (Cons p ps)
  note eq = ParseSource_same_target[OF Cons.prems, of p]
  show ?case
  proof (cases "ParseSource L (Some cwd2) p m")
    case (Inl e)
    with eq show ?thesis by simp
  next
    case (Inr m1)
    from ParseSource_Output[OF Inr] Cons.prems
    have "Dir L (cwd1 @ [PathSeparator L] @ Output m1) = Dir L (cwd2 @ [PathSeparator L] @ Output m1)"
      by simp
    from Cons.IH[OF this] eq Inr show ?thesis by simp
  qed
qed

lemma formatCode_eq_iff:
  "fst (MakeInterface L env1 pkgName ifaceName m) = fst (MakeInterface L env2 pkgName ifaceName m)
   \<longleftrightarrow> Process L env1 (makeInterface L m pkgName ifaceName)
       = Process L env2 (makeInterface L m pkgName ifaceName)"
  by (auto simp: MakeInterface_def formatCode_def Let_def split: option.splits)

text \<open>
  C9, amended: the result of a run is a function of the parsed files, the command line
  and two things read from the state of the process: the target path that
  \<^verbatim>\<open>ParseSource\<close> derives from the working directory, and what the formatter returns
  there. Take two runs on the same files with the same command line, in process states
  whose working directories give the same target path. They read the files to the
  same end: the same error, which is then the result of both, or the same maker, and
  so the same unformatted text. In the second case their results are equal exactly
  when the formatter, which reads the working directory, the module files and
  \<^verbatim>\<open>GOPATH\<close>, returns the same for that text in the two process states.
\<close>

theorem run_same_target_path:
  assumes "Getwd L env1 = Some cwd1" and "Getwd L env2 = Some cwd2"
    and "Dir L (cwd1 @ [PathSeparator L] @ argOutput args)
             = Dir L (cwd2 @ [PathSeparator L] @ argOutput args)"
  shows "parseAll L (Getwd L env1) ps (newMaker args) = parseAll L (Getwd L env2) ps (newMaker args)
    \<and> (\<forall>e. parseAll L (Getwd L env1) ps (newMaker args) = Inl e
          \<longrightarrow> run L env1 args ps = Inl e \<and> run L env2 args ps = Inl e)
    \<and> (\<forall>m. parseAll L (Getwd L env1) ps (newMaker args) = Inr m
          \<longrightarrow> (run L env1 args ps = run L env2 args ps
               \<longleftrightarrow> Process L env1 (makeInterface L m (PkgName args) (IfaceName args))
                   = Process L env2 (makeInterface L m (PkgName args) (IfaceName args))))"
proof -
  have "Output (newMaker args) = argOutput args" by (simp add: newMaker_def)
  with assms(3) have "parseAll L (Some cwd1) ps (newMaker args) = parseAll L (Some cwd2) ps (newMaker args)"
    by (intro parseAll_same_target) simp
  with assms(1,2)
  have eq: "parseAll L (Getwd L env1) ps (newMaker args) = parseAll L (Getwd L env2) ps (newMaker args)"
    by simp
  have err: "run L env1 args ps = Inl e \<and> run L env2 args ps = Inl e"
    if "parseAll L (Getwd L env1) ps (newMaker args) = Inl e" for e
    using that eq by (simp add: run_def)
  have ok: "run L env1 args ps = run L env2 args ps
               \<longleftrightarrow> Process L env1 (makeInterface L m (PkgName args) (IfaceName args))
                   = Process L env2 (makeInterface L m (PkgName args) (IfaceName args))"
    if "parseAll L (Getwd L env1) ps (newMaker args) = Inr m" for m
  proof -
    from that eq have "run L env1 args ps = fst (MakeInterface L env1 (PkgName args) (IfaceName args) m)"
      and "run L env2 args ps = fst (MakeInterface L env2 (PkgName args) (IfaceName args) m)"
      by (simp_all add: run_def)
    then show ?thesis by (simp only: formatCode_eq_iff)
  qed
  from eq err ok show ?thesis by blast
qed

text \<open>
  With \<^verbatim>\<open>-o ../out/iface.go\<close> the working directories \<^verbatim>\<open>/home/u/a\<close> and \<^verbatim>\<open>/home/u/b\<close> give
  the target path \<^verbatim>\<open>/home/u/out\<close>. A file that could not be parsed ends both runs with
  the same error; \<^verbatim>\<open>foo.go\<close> gives both the same maker, and with a formatter that
  returns the same in both, the same result.
\<close>

theorem run_same_target_path_witness:
  "unix_Dir (''/home/u/a'' @ ''/'' @ ''../out/iface.go'') = unix_Dir (''/home/u/b'' @ ''/'' @ ''../out/iface.go'')
   \<and> parseAll example_lib (Some ''/home/u/a'') [None] (newMaker exArgsOut)
       = Inl (Wrap External ''parsing file failed'')
   \<and> run example_lib ''/home/u/a'' exArgsOut [None] = Inl (Wrap External ''parsing file failed'')
   \<and> run example_lib ''/home/u/b'' exArgsOut [None] = Inl (Wrap External ''parsing file failed'')
   \<and> (\<exists>m. parseAll example_lib (Some ''/home/u/a'') [Some exFoo] (newMaker exArgsOut) = Inr m
          \<and> parseAll example_lib (Some ''/home/u/b'') [Some exFoo] (newMaker exArgsOut) = Inr m
          \<and> Process example_lib ''/home/u/a'' (makeInterface example_lib m (PkgName exArgsOut) (IfaceName exArgsOut))
              = Process example_lib ''/home/u/b'' (makeInterface example_lib m (PkgName exArgsOut) (IfaceName exArgsOut)))
   \<and> run example_lib ''/home/u/a'' exArgsOut [Some exFoo]
       = run example_lib ''/home/u/b'' exArgsOut [Some exFoo]"
proof -
  have ga: "Getwd example_lib ''/home/u/a'' = Some ''/home/u/a''"
    and gb: "Getwd example_lib ''/home/u/b'' = Some ''/home/u/b''"
    by (simp_all add: example_lib_def)
  have d: "Dir example_lib (''/home/u/a'' @ [PathSeparator example_lib] @ argOutput exArgsOut)
         = Dir example_lib (''/home/u/b'' @ [PathSeparator example_lib] @ argOutput exArgsOut)"
    by (simp add: lib_defs exArgsOut_def exArgs_def)
  have du: "unix_Dir (''/home/u/a'' @ ''/'' @ ''../out/iface.go'') = unix_Dir (''/home/u/b'' @ ''/'' @ ''../out/iface.go'')"
    using d by (simp add: example_lib_def exArgsOut_def exArgs_def)
  have pn: "parseAll example_lib (Some ''/home/u/a'') [None] (newMaker exArgsOut)
       = Inl (Wrap External ''parsing file failed'')"
    by (simp add: ParseSource_def)
  note tn = run_same_target_path[OF ga gb d, of "[None]", unfolded ga gb]
  from tn[THEN conjunct2, THEN conjunct1, rule_format, OF pn]
  have rn: "run example_lib ''/home/u/a'' exArgsOut [None] = Inl (Wrap External ''parsing file failed'')
          \<and> run example_lib ''/home/u/b'' exArgsOut [None] = Inl (Wrap External ''parsing file failed'')" .
  note tf = run_same_target_path[OF ga gb d, of "[Some exFoo]", unfolded ga gb]
  have "\<exists>m. parseAll example_lib (Some ''/home/u/a'') [Some exFoo] (newMaker exArgsOut) = Inr m"
    by (simp add: ex_defs lib_defs run_defs)
  then obtain m where pa: "parseAll example_lib (Some ''/home/u/a'') [Some exFoo] (newMaker exArgsOut) = Inr m" ..
  from tf[THEN conjunct1] pa
  have pb: "parseAll example_lib (Some ''/home/u/b'') [Some exFoo] (newMaker exArgsOut) = Inr m" by simp
  have pr: "Process example_lib ''/home/u/a'' (makeInterface example_lib m (PkgName exArgsOut) (IfaceName exArgsOut))
              = Process example_lib ''/home/u/b'' (makeInterface example_lib m (PkgName exArgsOut) (IfaceName exArgsOut))"
    by (simp add: example_lib_def)
  from tf[THEN conjunct2, THEN conjunct2, rule_format, OF pa] pr
  have rf: "run example_lib ''/home/u/a'' exArgsOut [Some exFoo]
       = run example_lib ''/home/u/b'' exArgsOut [Some exFoo]" by simp
  from du pn rn pa pb pr rf show ?thesis by (intro conjI exI[of _ m]) simp_all
qed

section \<open>Which declarations are collected (C6)\<close>

text \<open>
  C6: from a new maker, the first loop of \<^verbatim>\<open>ParseSource\<close> puts into \<^verbatim>\<open>funcDecks\<close>
  exactly the declarations of the file that are function declarations with one receiver
  binding whose type is the target type or a pointer to it and whose name is exported,
  in their order (for a target type name that is not empty; for the empty name the loop
  gives the same or stops with a panic). When \<^verbatim>\<open>ParseSource\<close> returns, the methods are
  made from these declarations, the first of each name, and the names recorded are
  theirs; with \<open>E\<close> such declarations of distinct names there are \<open>E\<close> methods.
\<close>

theorem exported_methods_only:
  "(StructType args \<noteq> [] \<longrightarrow>
      collectDecls L (newMaker args) (Decls a) False
        = Inr (qualifying L (StructType args) (Decls a) \<noteq> [],
               (newMaker args)\<lparr>funcDecks := qualifying L (StructType args) (Decls a)\<rparr>))
   \<and> (\<forall>r. collectDecls L (newMaker args) (Decls a) False = Inr r \<longrightarrow>
          r = (qualifying L (StructType args) (Decls a) \<noteq> [],
               (newMaker args)\<lparr>funcDecks := qualifying L (StructType args) (Decls a)\<rparr>))
   \<and> (ParseSource L getwd (Some a) (newMaker args) = Inr m' \<longrightarrow>
        list_all2 (\<lambda>fd me. methodOf L m' fd = Inr me)
          (first_wins {} (qualifying L (StructType args) (Decls a))) (methods m')
        \<and> methodNames m' = Name ` set (qualifying L (StructType args) (Decls a))
        \<and> (distinct (map Name (qualifying L (StructType args) (Decls a)))
             \<longrightarrow> length (methods m') = length (qualifying L (StructType args) (Decls a))))"
proof -
  let ?Q = "qualifying L (StructType args) (Decls a)"
  have f: "StructName (newMaker args) = StructType args" "funcDecks (newMaker args) = []"
    "methodNames (newMaker args) = {}" "methods (newMaker args) = []"
    by (simp_all add: newMaker_def)
  have c: "collectDecls L (newMaker args) (Decls a) False =
     (if StructType args = [] \<and> (\<exists>d\<in>set (Decls a). getReceiverTypeName d = ([], None))
      then Inl NilDereference
      else Inr (?Q \<noteq> [], (newMaker args)\<lparr>funcDecks := ?Q\<rparr>))"
    by (simp add: collectDecls_eq f)
  have 1: "StructType args \<noteq> [] \<longrightarrow>
      collectDecls L (newMaker args) (Decls a) False = Inr (?Q \<noteq> [], (newMaker args)\<lparr>funcDecks := ?Q\<rparr>)"
    by (simp add: c)
  have 2: "\<forall>r. collectDecls L (newMaker args) (Decls a) False = Inr r \<longrightarrow>
          r = (?Q \<noteq> [], (newMaker args)\<lparr>funcDecks := ?Q\<rparr>)"
    by (auto simp: c split: if_splits)
  have 3: "list_all2 (\<lambda>fd me. methodOf L m' fd = Inr me) (first_wins {} ?Q) (methods m')
        \<and> methodNames m' = Name ` set ?Q
        \<and> (distinct (map Name ?Q) \<longrightarrow> length (methods m') = length ?Q)"
    if ok: "ParseSource L getwd (Some a) (newMaker args) = Inr m'"
  proof -
    from ParseSource_Inr[OF ok] obtain cwd where g: "getwd = Some cwd" by blast
    from ParseSource_settled[OF ok[unfolded g] settled_newMaker] obtain news where
      n: "methods m' = news"
      "list_all2 (\<lambda>fd me. methodOf L m' fd = Inr me) (first_wins {} ?Q) news"
      "methodNames m' = Name ` set ?Q"
      by (auto simp: f)
    have "length (methods m') = length ?Q" if "distinct (map Name ?Q)"
      using n(1,2) first_wins_distinct_id[OF that, of "{}"] by (auto dest: list_all2_lengthD)
    with n show ?thesis by simp
  qed
  then have imp3: "ParseSource L getwd (Some a) (newMaker args) = Inr m' \<longrightarrow>
        list_all2 (\<lambda>fd me. methodOf L m' fd = Inr me) (first_wins {} ?Q) (methods m')
        \<and> methodNames m' = Name ` set ?Q
        \<and> (distinct (map Name ?Q) \<longrightarrow> length (methods m') = length ?Q)"
    by (rule impI)
  from 1 2 imp3 show ?thesis by (intro conjI)
qed



text \<open>Of the declarations of \<^verbatim>\<open>foo.go\<close>, \<^verbatim>\<open>Get\<close> and \<^verbatim>\<open>Set\<close> are collected: not the
  method that is not exported, the plain function, the method of \<^verbatim>\<open>Bar\<close>, nor the receivers
  with two names, two stars or a qualified type.\<close>

theorem exported_methods_only_witness:
  "collectDecls example_lib (newMaker exArgs) (Decls exFoo) False
     = Inr (True, (newMaker exArgs)\<lparr>funcDecks := [exGet, exSet]\<rparr>)
   \<and> (\<exists>m'. ParseSource example_lib (Some ''/home/u/work'') (Some exFoo) (newMaker exArgs) = Inr m'
          \<and> length (methods m') = 2
          \<and> map Code (methods m') = [''Get(w p.Widget) (string,error)'', ''Set(v int) ()'']
          \<and> methodNames m' = {''Get'', ''Set''})"
proof -
  have q: "qualifying example_lib (StructType exArgs) (Decls exFoo) = [exGet, exSet]"
    by (simp add: qualifying_def funcDecls_def receiverNamed_def ex_defs lib_defs)
  have s: "StructType exArgs \<noteq> []" by (simp add: exArgs_def)
  have d: "distinct (map Name [exGet, exSet])" by (simp add: ex_defs)
  have n: "Name ` set [exGet, exSet] = {''Get'', ''Set''}" by (simp add: ex_defs)
  obtain m' where m': "ParseSource example_lib (Some ''/home/u/work'') (Some exFoo) (newMaker exArgs) = Inr m'"
    and code: "map Code (methods m') = [''Get(w p.Widget) (string,error)'', ''Set(v int) ()'']"
    by (simp add: ex_defs lib_defs run_defs)
  note t = exported_methods_only[of exArgs example_lib exFoo "Some ''/home/u/work''" m']
  from t[THEN conjunct1, rule_format, OF s]
  have 1: "collectDecls example_lib (newMaker exArgs) (Decls exFoo) False
     = Inr (True, (newMaker exArgs)\<lparr>funcDecks := [exGet, exSet]\<rparr>)"
    unfolding q by simp
  note t3 = t[THEN conjunct2, THEN conjunct2, rule_format, OF m', unfolded q]
  from t3[THEN conjunct2, THEN conjunct2, rule_format, OF d]
  have 2: "length (methods m') = 2" by simp
  from t3[THEN conjunct2, THEN conjunct1]
  have 3: "methodNames m' = {''Get'', ''Set''}" unfolding n .
  from m' 2 code 3 have "\<exists>m'. ParseSource example_lib (Some ''/home/u/work'') (Some exFoo) (newMaker exArgs) = Inr m'
          \<and> length (methods m') = 2
          \<and> map Code (methods m') = [''Get(w p.Widget) (string,error)'', ''Set(v int) ()'']
          \<and> methodNames m' = {''Get'', ''Set''}"
    by (intro exI[of _ m'] conjI)
  with 1 show ?thesis by (rule conjI)
qed

section \<open>The first declaration of a name wins (C5)\<close>

text \<open>The alias after a file, the methods of a run with their aliases, and a run replayed.\<close>

lemma ParseSource_alias:
  assumes ok: "ParseSource L (Some cwd) (Some a) m = Inr m'"
  shows "PkgNameUsedInSourceStruct m'
           = fileAlias L (Dir L (cwd @ [PathSeparator L] @ Output m)) (StructName m)
               (PkgNameUsedInSourceStruct m) a"
proof (cases "qualifying L (StructName m) (Decls a) = []")
  case True
  from ParseSource_no_methods[OF ok True] True show ?thesis
    by (simp add: fileAlias_def makeMaps_fields)
next
  case False
  from ParseSource_steps[OF ok False] obtain m2 where
    h: "harvestImports L (Dir L (cwd @ [PathSeparator L] @ Output m))
          ((makeMaps m)\<lparr>funcDecks := funcDecks m
              @ filter (\<lambda>fd. Name fd \<notin> methodNames (makeMaps m))
                  (qualifying L (StructName m) (Decls a))\<rparr>)
          (Imports a) = Inr m2"
    and am: "addMethods L m2 (funcDecks m2) = Inr m'"
    by blast
  from addMethods_eq[OF am] have "PkgNameUsedInSourceStruct m' = PkgNameUsedInSourceStruct m2" by auto
  with harvestImports_alias[OF h] False show ?thesis
    by (simp add: fileAlias_def makeMaps_fields)
qed

lemma firstDeclarations_fst:
  "map fst (firstDeclarations L tp T seen cur files)
     = first_wins seen (concat (map (\<lambda>a. qualifying L T (Decls a)) files))"
proof (induction files arbitrary: seen cur)
  case Nil
  show ?case by simp
next
  case (Cons a fs)
  have "map fst (map (\<lambda>fd. (fd, fileAlias L tp T cur a)) (first_wins seen (qualifying L T (Decls a))))
          = first_wins seen (qualifying L T (Decls a))"
    by (simp add: comp_def)
  with Cons.IH[of "seen \<union> Name ` set (qualifying L T (Decls a))" "fileAlias L tp T cur a"]
  show ?case by (simp add: first_wins_append)
qed

lemma parseAll_first:
  assumes "parseAll L (Some cwd) (map Some files) m = Inr m'" and "settled m"
  shows "\<exists>news. methods m' = methods m @ news
           \<and> list_all2 (\<lambda>(fd, al) me. methodOf L (m\<lparr>PkgNameUsedInSourceStruct := al\<rparr>) fd = Inr me)
                (firstDeclarations L (Dir L (cwd @ [PathSeparator L] @ Output m)) (StructName m)
                   (methodNames m) (PkgNameUsedInSourceStruct m) files) news"
  using assms
proof (induction files arbitrary: m)
  case Nil
  then show ?case by simp
next
  case (Cons a fs)
  let ?tp = "Dir L (cwd @ [PathSeparator L] @ Output m)"
  let ?Q = "qualifying L (StructName m) (Decls a)"
  let ?al = "fileAlias L ?tp (StructName m) (PkgNameUsedInSourceStruct m) a"
  from Cons.prems(1) obtain m1 where 1: "ParseSource L (Some cwd) (Some a) m = Inr m1"
    and 2: "parseAll L (Some cwd) (map Some fs) m1 = Inr m'"
    by (auto split: sum.splits)
  from ParseSource_settled[OF 1 Cons.prems(2)] obtain n1 where
    a1: "methods m1 = methods m @ n1"
    and r1: "list_all2 (\<lambda>fd me. methodOf L m1 fd = Inr me) (first_wins (methodNames m) ?Q) n1"
    and nm1: "methodNames m1 = methodNames m \<union> Name ` set ?Q"
    and s1: "settled m1" and f1: "StructName m1 = StructName m" "CopyDocs m1 = CopyDocs m"
      "Output m1 = Output m"
    by blast
  note al1 = ParseSource_alias[OF 1]
  from Cons.IH[OF 2 s1] obtain n2 where
    a2: "methods m' = methods m1 @ n2"
    and r2: "list_all2 (\<lambda>(fd, al) me. methodOf L (m1\<lparr>PkgNameUsedInSourceStruct := al\<rparr>) fd = Inr me)
                (firstDeclarations L (Dir L (cwd @ [PathSeparator L] @ Output m1)) (StructName m1)
                   (methodNames m1) (PkgNameUsedInSourceStruct m1) fs) n2"
    by blast
  have c1: "methodOf L m1 fd = methodOf L (m\<lparr>PkgNameUsedInSourceStruct := ?al\<rparr>) fd" for fd
    by (rule methodOf_cong) (simp_all add: f1 al1)
  have c2: "methodOf L (m1\<lparr>PkgNameUsedInSourceStruct := al\<rparr>) fd
              = methodOf L (m\<lparr>PkgNameUsedInSourceStruct := al\<rparr>) fd" for fd al
    by (rule methodOf_cong) (simp_all add: f1)
  have r1': "list_all2 (\<lambda>(fd, al) me. methodOf L (m\<lparr>PkgNameUsedInSourceStruct := al\<rparr>) fd = Inr me)
               (map (\<lambda>fd. (fd, ?al)) (first_wins (methodNames m) ?Q)) n1"
    using r1 by (simp add: list_all2_map1 c1)
  have r2': "list_all2 (\<lambda>(fd, al) me. methodOf L (m\<lparr>PkgNameUsedInSourceStruct := al\<rparr>) fd = Inr me)
               (firstDeclarations L ?tp (StructName m) (methodNames m \<union> Name ` set ?Q) ?al fs) n2"
    using r2 by (simp add: c2 f1 nm1 al1)
  have "methods m' = methods m @ (n1 @ n2)" using a1 a2 by simp
  moreover have "list_all2 (\<lambda>(fd, al) me. methodOf L (m\<lparr>PkgNameUsedInSourceStruct := al\<rparr>) fd = Inr me)
       (firstDeclarations L ?tp (StructName m) (methodNames m) (PkgNameUsedInSourceStruct m) (a # fs))
       (n1 @ n2)"
    using r1' r2' by (simp add: list_all2_appendI)
  ultimately show ?case by blast
qed

text \<open>A file whose exported methods of the type all carry recorded names: its imports are
  harvested, and that is all.\<close>

lemma ParseSource_duplicates:
  assumes s: "settled m"
    and sub: "Name ` set (qualifying L (StructName m) (Decls a)) \<subseteq> methodNames m"
  shows "ParseSource L (Some cwd) (Some a) m =
     (if StructName m = [] \<and> (\<exists>d\<in>set (Decls a). getReceiverTypeName d = ([], None))
      then Inl NilDereference
      else if qualifying L (StructName m) (Decls a) = [] then Inr m
      else harvestImports L (Dir L (cwd @ [PathSeparator L] @ Output m)) m (Imports a))"
proof -
  let ?tp = "Dir L (cwd @ [PathSeparator L] @ Output m)"
  have mm: "makeMaps m = m" using s by (rule makeMaps_settled)
  have none: "filter (\<lambda>fd. Name fd \<notin> methodNames m) (qualifying L (StructName m) (Decls a)) = []"
    using sub by (auto simp: filter_empty_conv)
  have same: "m\<lparr>funcDecks := funcDecks m @ []\<rparr> = m" by simp
  have h: "(case harvestImports L ?tp m (Imports a) of Inl e \<Rightarrow> Inl e
            | Inr m2 \<Rightarrow> addMethods L m2 (funcDecks m2)) = harvestImports L ?tp m (Imports a)"
  proof (cases "harvestImports L ?tp m (Imports a)")
    case (Inl e)
    then show ?thesis by simp
  next
    case (Inr m2)
    from harvestImports_frame[OF Inr] s have "Name ` set (funcDecks m2) \<subseteq> methodNames m2"
      by (simp add: settled_def)
    from addMethods_skip_all[OF this] Inr show ?thesis by simp
  qed
  show ?thesis
    by (simp only: ParseSource_eq mm none same h)
qed

lemma ParseSource_mono:
  assumes ok: "ParseSource L (Some cwd) (Some a) m = Inr m'" and "importsByPath m p = Some e"
  shows "importsByPath m' p = Some e"
proof (cases "qualifying L (StructName m) (Decls a) = []")
  case True
  from ParseSource_no_methods[OF ok True] assms(2) show ?thesis by (simp add: makeMaps_fields)
next
  case False
  from ParseSource_steps[OF ok False] obtain m2 where
    h: "harvestImports L (Dir L (cwd @ [PathSeparator L] @ Output m))
          ((makeMaps m)\<lparr>funcDecks := funcDecks m
              @ filter (\<lambda>fd. Name fd \<notin> methodNames (makeMaps m))
                  (qualifying L (StructName m) (Decls a))\<rparr>)
          (Imports a) = Inr m2"
    and am: "addMethods L m2 (funcDecks m2) = Inr m'"
    by blast
  from addMethods_eq[OF am] have "importsByPath m' = importsByPath m2" by auto
  moreover from harvestImports_mono[OF h, of p e] assms(2) have "importsByPath m2 p = Some e"
    by (simp add: makeMaps_fields)
  ultimately show ?thesis by simp
qed

lemma parseAll_mono:
  assumes "parseAll L (Some cwd) (map Some files) m = Inr m'" and "importsByPath m p = Some e"
  shows "importsByPath m' p = Some e"
  using assms
proof (induction files arbitrary: m)
  case Nil
  then show ?case by simp
next
  case (Cons a fs)
  from Cons.prems(1) obtain m1 where 1: "ParseSource L (Some cwd) (Some a) m = Inr m1"
    and 2: "parseAll L (Some cwd) (map Some fs) m1 = Inr m'"
    by (auto split: sum.splits)
  from Cons.IH[OF 2 ParseSource_mono[OF 1 Cons.prems(2)]] show ?case .
qed

lemma parseAll_replayable:
  assumes "parseAll L (Some cwd) (map Some files) m = Inr m'" and "settled m"
  shows "\<forall>f\<in>set files. replayable L (Dir L (cwd @ [PathSeparator L] @ Output m)) m' f"
  using assms
proof (induction files arbitrary: m)
  case Nil
  then show ?case by simp
next
  case (Cons a fs)
  let ?tp = "Dir L (cwd @ [PathSeparator L] @ Output m)"
  from Cons.prems(1) obtain m1 where 1: "ParseSource L (Some cwd) (Some a) m = Inr m1"
    and 2: "parseAll L (Some cwd) (map Some fs) m1 = Inr m'"
    by (auto split: sum.splits)
  from ParseSource_settled[OF 1 Cons.prems(2)] have
    s1: "settled m1" and f1: "StructName m1 = StructName m" "Output m1 = Output m"
    by blast+
  from parseAll_settled[OF 2 s1] f1 have f2: "StructName m' = StructName m" by auto
  from 1 have nopanic: "\<not> (StructName m = [] \<and> (\<exists>d\<in>set (Decls a). getReceiverTypeName d = ([], None)))"
    by (auto simp: ParseSource_eq split: if_splits)
  have reg: "\<exists>path. Unquote L (PathValue imp) = Some path
                \<and> (\<not> HasSuffix ?tp path \<longrightarrow>
                     (\<exists>e. importsByPath m' path = Some e \<and> Alias e = importAlias imp))"
    if q: "qualifying L (StructName m) (Decls a) \<noteq> []"
      and imp: "imp \<in> set (Imports a)" "importAlias imp \<noteq> ''.''" for imp
  proof -
    from ParseSource_steps[OF 1 q] obtain m2 where
      h: "harvestImports L ?tp
            ((makeMaps m)\<lparr>funcDecks := funcDecks m
                @ filter (\<lambda>fd. Name fd \<notin> methodNames (makeMaps m))
                    (qualifying L (StructName m) (Decls a))\<rparr>)
            (Imports a) = Inr m2"
      and am: "addMethods L m2 (funcDecks m2) = Inr m1"
      by blast
    from addMethods_eq[OF am] have same: "importsByPath m1 = importsByPath m2" by auto
    from harvestImports_registered[OF h imp] obtain path where
      p: "Unquote L (PathValue imp) = Some path"
         "\<not> HasSuffix ?tp path \<longrightarrow> (\<exists>e. importsByPath m2 path = Some e \<and> Alias e = importAlias imp)"
      by blast
    have "\<exists>e. importsByPath m' path = Some e \<and> Alias e = importAlias imp" if "\<not> HasSuffix ?tp path"
    proof -
      from p(2) that same obtain e where e: "importsByPath m1 path = Some e" "Alias e = importAlias imp"
        by auto
      from parseAll_mono[OF 2 e(1)] e(2) show ?thesis by blast
    qed
    with p(1) show ?thesis by blast
  qed
  have "replayable L ?tp m' a"
    unfolding replayable_def f2 using nopanic reg by blast
  moreover from Cons.IH[OF 2 s1] f1 have "\<forall>f\<in>set fs. replayable L ?tp m' f" by simp
  ultimately show ?case by simp
qed

lemma ParseSource_replay:
  assumes s: "settled m"
    and sub: "Name ` set (qualifying L (StructName m) (Decls f)) \<subseteq> methodNames m"
    and r: "replayable L (Dir L (cwd @ [PathSeparator L] @ Output m)) m f"
  shows "ParseSource L (Some cwd) (Some f) m
           = Inr (m\<lparr>PkgNameUsedInSourceStruct :=
                     fileAlias L (Dir L (cwd @ [PathSeparator L] @ Output m)) (StructName m)
                       (PkgNameUsedInSourceStruct m) f\<rparr>)"
proof -
  let ?tp = "Dir L (cwd @ [PathSeparator L] @ Output m)"
  from r have nopanic: "\<not> (StructName m = [] \<and> (\<exists>d\<in>set (Decls f). getReceiverTypeName d = ([], None)))"
    unfolding replayable_def by blast
  show ?thesis
  proof (cases "qualifying L (StructName m) (Decls f) = []")
    case True
    with nopanic show ?thesis
      by (simp only: ParseSource_duplicates[OF s sub] fileAlias_def) simp
  next
    case False
    with r have "\<forall>imp\<in>set (Imports f). importAlias imp \<noteq> ''.'' \<longrightarrow>
             (\<exists>path. Unquote L (PathValue imp) = Some path
                \<and> (\<not> HasSuffix ?tp path \<longrightarrow>
                     (\<exists>e. importsByPath m path = Some e \<and> Alias e = importAlias imp)))"
      unfolding replayable_def by blast
    from harvestImports_replay[OF this] False nopanic show ?thesis
      by (simp only: ParseSource_duplicates[OF s sub] fileAlias_def) simp
  qed
qed

lemma parseAll_snoc:
  "parseAll L getwd xs m = Inr m' \<Longrightarrow> parseAll L getwd (xs @ [p]) m = ParseSource L getwd p m'"
  by (simp add: parseAll_append split: sum.splits)

text \<open>
  C5, as the claim states it, fails: after the first file has given \<^verbatim>\<open>Get\<close>, the second
  file declares \<^verbatim>\<open>Get\<close> again and nothing else. Its declaration is a later duplicate
  and adds no method, but the run does not drop it without error: the file of a
  duplicate has its imports harvested, and the import \<^verbatim>\<open>r "x/y"\<close> of the second file
  ends the run with the alias conflict.
\<close>

theorem later_duplicate_ends_run:
  "parseAll example_lib (Some ''/home/u/work'') (map Some [exFirst]) (newMaker exArgs) = Inr exAfterFirst
   \<and> qualifying example_lib (StructType exArgs) (Decls exSecond) = [exGet]
   \<and> Name exGet \<in> methodNames exAfterFirst
   \<and> parseAll example_lib (Some ''/home/u/work'') (map Some [exFirst, exSecond]) (newMaker exArgs)
        = Inl (Errorf (''Package '' @ [CHR 0x22] @ ''x/y'' @ [CHR 0x22]
                 @ '' imported multiple times with different aliases: q, r''))"
  by (simp add: exAfterFirst_def qualifying_def funcDecls_def receiverNamed_def
      ex_defs lib_defs run_defs)

text \<open>
  C5, amended: method names are unique in the final collection of every run that
  returns. The methods are made, one each and in order, from the first declaration
  of each name among the qualifying declarations of all files: each has the docs of
  that declaration and its signature, printed with the source package alias that is
  in force after the imports of its file. A later duplicate adds no method and is no
  error by itself, but the imports of its file are harvested: a further file whose
  qualifying declarations are all duplicates returns what harvesting its imports
  returns, an error or a maker with the same methods and names (and without a
  qualifying declaration, the maker as it was; with an empty type name and a
  declaration that is no method, it panics). Reprocessing a file of the run returns
  the maker of the run with the source package alias that the file leaves, so no
  method twice, and reprocessing the last file returns the maker of the run.
\<close>

theorem first_declaration_wins:
  "parseAll L (Some cwd) (map Some files) (newMaker args) = Inr m \<longrightarrow>
     map fst (firstDeclarations L (Dir L (cwd @ [PathSeparator L] @ argOutput args))
                (StructType args) {} (PkgName args) files)
       = first_wins {} (concat (map (\<lambda>a. qualifying L (StructType args) (Decls a)) files))
     \<and> distinct (map Name
         (first_wins {} (concat (map (\<lambda>a. qualifying L (StructType args) (Decls a)) files))))
     \<and> list_all2
          (\<lambda>(fd, al) me. methodOf L ((newMaker args)\<lparr>PkgNameUsedInSourceStruct := al\<rparr>) fd = Inr me)
          (firstDeclarations L (Dir L (cwd @ [PathSeparator L] @ argOutput args))
             (StructType args) {} (PkgName args) files)
          (methods m)
     \<and> methodNames m
         = Name ` set (concat (map (\<lambda>a. qualifying L (StructType args) (Decls a)) files))
     \<and> (\<forall>a. Name ` set (qualifying L (StructType args) (Decls a)) \<subseteq> methodNames m \<longrightarrow>
            parseAll L (Some cwd) (map Some (files @ [a])) (newMaker args)
              = (if StructType args = [] \<and> (\<exists>d\<in>set (Decls a). getReceiverTypeName d = ([], None))
                 then Inl NilDereference
                 else if qualifying L (StructType args) (Decls a) = [] then Inr m
                 else harvestImports L (Dir L (cwd @ [PathSeparator L] @ argOutput args)) m (Imports a))
            \<and> (\<forall>m2. harvestImports L (Dir L (cwd @ [PathSeparator L] @ argOutput args)) m (Imports a)
                       = Inr m2
                  \<longrightarrow> methods m2 = methods m \<and> methodNames m2 = methodNames m))
     \<and> (\<forall>f\<in>set files.
            parseAll L (Some cwd) (map Some (files @ [f])) (newMaker args)
              = Inr (m\<lparr>PkgNameUsedInSourceStruct :=
                        fileAlias L (Dir L (cwd @ [PathSeparator L] @ argOutput args))
                          (StructType args) (PkgNameUsedInSourceStruct m) f\<rparr>))
     \<and> (files \<noteq> [] \<longrightarrow>
          parseAll L (Some cwd) (map Some (files @ [last files])) (newMaker args) = Inr m)"
proof
  let ?T = "StructType args"
  let ?tp = "Dir L (cwd @ [PathSeparator L] @ argOutput args)"
  let ?C = "concat (map (\<lambda>a. qualifying L ?T (Decls a)) files)"
  let ?E = "firstDeclarations L ?tp ?T {} (PkgName args) files"
  let ?m0 = "newMaker args"
  assume ok: "parseAll L (Some cwd) (map Some files) ?m0 = Inr m"
  have f: "StructName ?m0 = ?T" "methodNames ?m0 = {}" "methods ?m0 = []"
    "Output ?m0 = argOutput args" "PkgNameUsedInSourceStruct ?m0 = PkgName args"
    by (simp_all add: newMaker_def)
  from parseAll_settled[OF ok settled_newMaker] have
    names: "methodNames m = Name ` set ?C"
    and s: "settled m" and sn: "StructName m = ?T" and out: "Output m = argOutput args"
    by (auto simp: f)
  have fst: "map fst ?E = first_wins {} ?C" by (rule firstDeclarations_fst)
  have dist: "distinct (map Name (first_wins {} ?C))" by (rule first_wins_distinct)
  from parseAll_first[OF ok settled_newMaker]
  have rel: "list_all2
          (\<lambda>(fd, al) me. methodOf L (?m0\<lparr>PkgNameUsedInSourceStruct := al\<rparr>) fd = Inr me) ?E (methods m)"
    by (auto simp: f)
  have dup: "parseAll L (Some cwd) (map Some (files @ [a])) ?m0
              = (if ?T = [] \<and> (\<exists>d\<in>set (Decls a). getReceiverTypeName d = ([], None))
                 then Inl NilDereference
                 else if qualifying L ?T (Decls a) = [] then Inr m
                 else harvestImports L ?tp m (Imports a))
            \<and> (\<forall>m2. harvestImports L ?tp m (Imports a) = Inr m2
                  \<longrightarrow> methods m2 = methods m \<and> methodNames m2 = methodNames m)"
    if sub: "Name ` set (qualifying L ?T (Decls a)) \<subseteq> methodNames m" for a
  proof -
    from sub sn have sub': "Name ` set (qualifying L (StructName m) (Decls a)) \<subseteq> methodNames m"
      by simp
    have "parseAll L (Some cwd) (map Some (files @ [a])) ?m0 = ParseSource L (Some cwd) (Some a) m"
      using parseAll_snoc[OF ok, of "Some a"] by simp
    also note ParseSource_duplicates[OF s sub', of cwd, unfolded sn out]
    finally have 1: "parseAll L (Some cwd) (map Some (files @ [a])) ?m0
              = (if ?T = [] \<and> (\<exists>d\<in>set (Decls a). getReceiverTypeName d = ([], None))
                 then Inl NilDereference
                 else if qualifying L ?T (Decls a) = [] then Inr m
                 else harvestImports L ?tp m (Imports a))" .
    have 2: "methods m2 = methods m \<and> methodNames m2 = methodNames m"
      if "harvestImports L ?tp m (Imports a) = Inr m2" for m2
      using harvestImports_frame[OF that] by simp
    from 1 2 show ?thesis by blast
  qed
  have re: "parseAll L (Some cwd) (map Some (files @ [g])) ?m0
              = Inr (m\<lparr>PkgNameUsedInSourceStruct := fileAlias L ?tp ?T (PkgNameUsedInSourceStruct m) g\<rparr>)"
    if g: "g \<in> set files" for g
  proof -
    from parseAll_replayable[OF ok settled_newMaker] g
    have r: "replayable L (Dir L (cwd @ [PathSeparator L] @ Output m)) m g"
      by (simp add: f out)
    from g have "set (qualifying L ?T (Decls g)) \<subseteq> set ?C" by auto
    with names sn have sub: "Name ` set (qualifying L (StructName m) (Decls g)) \<subseteq> methodNames m"
      by auto
    have "parseAll L (Some cwd) (map Some (files @ [g])) ?m0 = ParseSource L (Some cwd) (Some g) m"
      using parseAll_snoc[OF ok, of "Some g"] by simp
    also note ParseSource_replay[OF s sub r, unfolded sn out]
    finally show ?thesis .
  qed
  have again: "parseAll L (Some cwd) (map Some (files @ [last files])) ?m0 = Inr m" if ne: "files \<noteq> []"
  proof -
    from ne have split: "files = butlast files @ [last files]" by simp
    from ok have "parseAll L (Some cwd) (map Some (butlast files) @ [Some (last files)]) ?m0 = Inr m"
      by (subst (asm) split) simp
    then obtain mp where mp: "parseAll L (Some cwd) (map Some (butlast files)) ?m0 = Inr mp"
      and lastp: "ParseSource L (Some cwd) (Some (last files)) mp = Inr m"
      by (auto simp: parseAll_append split: sum.splits)
    from parseAll_settled[OF mp settled_newMaker] have "settled mp" by blast
    from ParseSource_idem[OF lastp this] ok show ?thesis
      by (simp add: parseAll_append)
  qed
  from fst dist rel names dup re again
  show "map fst ?E = first_wins {} ?C
     \<and> distinct (map Name (first_wins {} ?C))
     \<and> list_all2
          (\<lambda>(fd, al) me. methodOf L (?m0\<lparr>PkgNameUsedInSourceStruct := al\<rparr>) fd = Inr me) ?E (methods m)
     \<and> methodNames m = Name ` set ?C
     \<and> (\<forall>a. Name ` set (qualifying L ?T (Decls a)) \<subseteq> methodNames m \<longrightarrow>
            parseAll L (Some cwd) (map Some (files @ [a])) ?m0
              = (if ?T = [] \<and> (\<exists>d\<in>set (Decls a). getReceiverTypeName d = ([], None))
                 then Inl NilDereference
                 else if qualifying L ?T (Decls a) = [] then Inr m
                 else harvestImports L ?tp m (Imports a))
            \<and> (\<forall>m2. harvestImports L ?tp m (Imports a) = Inr m2
                  \<longrightarrow> methods m2 = methods m \<and> methodNames m2 = methodNames m))
     \<and> (\<forall>f\<in>set files.
            parseAll L (Some cwd) (map Some (files @ [f])) ?m0
              = Inr (m\<lparr>PkgNameUsedInSourceStruct := fileAlias L ?tp ?T (PkgNameUsedInSourceStruct m) f\<rparr>))
     \<and> (files \<noteq> [] \<longrightarrow> parseAll L (Some cwd) (map Some (files @ [last files])) ?m0 = Inr m)"
    by (intro conjI impI allI ballI) (assumption | blast)+
qed

text \<open>
  With \<^verbatim>\<open>-o iface.go\<close> in \<^verbatim>\<open>/home/u/proj\<close>: \<^verbatim>\<open>foo.go\<close> gives \<^verbatim>\<open>Get\<close> and \<^verbatim>\<open>Set\<close>, printed
  with the alias \<^verbatim>\<open>p\<close> of its self import, and the second file, which declares both
  again, adds nothing. Processing either file once more returns the same maker; a
  third file that declares \<^verbatim>\<open>Set\<close> again has its imports \<^verbatim>\<open>"fmt"\<close> and \<^verbatim>\<open>q "x/z"\<close>
  listed and adds no method.
\<close>

theorem first_declaration_wins_witness:
  "\<exists>m. parseAll example_lib (Some ''/home/u/proj'') (map Some [exFoo, exAgain]) (newMaker exArgsHere) = Inr m
      \<and> firstDeclarations example_lib ''/home/u/proj'' ''Foo'' {} ''bar2'' [exFoo, exAgain]
          = [(exGet, ''p''), (exSet, ''p'')]
      \<and> methods m = [\<lparr>Code = ''Get(w Widget) (string,error)'', Docs = [''// Get gets.'']\<rparr>,
                      \<lparr>Code = ''Set(v int) ()'', Docs = []\<rparr>]
      \<and> methodNames m = {''Get'', ''Set''}
      \<and> parseAll example_lib (Some ''/home/u/proj'') (map Some [exFoo, exAgain, exAgain]) (newMaker exArgsHere) = Inr m
      \<and> parseAll example_lib (Some ''/home/u/proj'') (map Some [exFoo, exAgain, exFoo]) (newMaker exArgsHere) = Inr m
      \<and> (\<exists>m3. parseAll example_lib (Some ''/home/u/proj'') (map Some [exFoo, exAgain, exThird]) (newMaker exArgsHere)
                  = Inr m3
             \<and> methods m3 = methods m \<and> methodNames m3 = methodNames m
             \<and> imports_list m3 = [\<lparr>Alias = [], Path = ''fmt''\<rparr>, \<lparr>Alias = ''q'', Path = ''x/z''\<rparr>])"
proof -
  have "\<exists>m. parseAll example_lib (Some ''/home/u/proj'') (map Some [exFoo, exAgain]) (newMaker exArgsHere) = Inr m
          \<and> imports_list m = [] \<and> importsByPath m = Map.empty \<and> importsByAlias m = Map.empty
          \<and> PkgNameUsedInSourceStruct m = ''p''"
    by (simp add: ex_defs lib_defs run_defs)
  then obtain m where
    m: "parseAll example_lib (Some ''/home/u/proj'') (map Some [exFoo, exAgain]) (newMaker exArgsHere) = Inr m"
    and reg: "imports_list m = []" "importsByPath m = Map.empty" "importsByAlias m = Map.empty"
    and al: "PkgNameUsedInSourceStruct m = ''p''"
    by blast
  have tp: "Dir example_lib (''/home/u/proj'' @ [PathSeparator example_lib] @ argOutput exArgsHere)
              = ''/home/u/proj''"
    by (simp add: ex_defs lib_defs)
  have a: "StructType exArgsHere = ''Foo''" "PkgName exArgsHere = ''bar2''"
    by (simp_all add: exArgsHere_def exArgs_def)
  have q1: "qualifying example_lib ''Foo'' (Decls exFoo) = [exGet, exSet]"
    by (simp add: qualifying_def funcDecls_def receiverNamed_def ex_defs lib_defs)
  have q2: "qualifying example_lib ''Foo'' (Decls exAgain) = [exGetAgain, exSet]"
    by (simp add: qualifying_def funcDecls_def receiverNamed_def ex_defs lib_defs)
  have q3: "qualifying example_lib ''Foo'' (Decls exThird) = [exSet]"
    by (simp add: qualifying_def funcDecls_def receiverNamed_def ex_defs lib_defs)
  have n: "Name exGet = ''Get''" "Name exSet = ''Set''" "Name exGetAgain = ''Get''"
    by (simp_all add: exGet_def exSet_def exGetAgain_def)
  have fa: "fileAlias example_lib ''/home/u/proj'' ''Foo'' ''bar2'' exFoo = ''p''"
    "fileAlias example_lib ''/home/u/proj'' ''Foo'' ''p'' exAgain = ''p''"
    "fileAlias example_lib ''/home/u/proj'' ''Foo'' ''p'' exFoo = ''p''"
    unfolding fileAlias_def q1 q2
    by (simp_all add: exFoo_def exAgain_def selfImport_def importAlias_def impSpec_def HasSuffix_def lib_defs)
  have E: "firstDeclarations example_lib ''/home/u/proj'' ''Foo'' {} ''bar2'' [exFoo, exAgain]
          = [(exGet, ''p''), (exSet, ''p'')]"
    by (simp add: q1 q2 n fa)
  note t = first_declaration_wins[of example_lib "''/home/u/proj''" "[exFoo, exAgain]" exArgsHere m,
              rule_format, OF m, unfolded tp a]
  from t[THEN conjunct2, THEN conjunct2, THEN conjunct1]
  have me: "methods m = [\<lparr>Code = ''Get(w Widget) (string,error)'', Docs = [''// Get gets.'']\<rparr>,
                      \<lparr>Code = ''Set(v int) ()'', Docs = []\<rparr>]"
    unfolding E
    by (auto simp: list_all2_Cons1 methodOf_def printParameters_def cleanParams_def Let_def
        ex_defs lib_defs split: sum.splits)
  from t[THEN conjunct2, THEN conjunct2, THEN conjunct2, THEN conjunct1]
  have names: "methodNames m = {''Get'', ''Set''}"
    by (simp add: q1 q2 n) blast
  from t[THEN conjunct2, THEN conjunct2, THEN conjunct2, THEN conjunct2, THEN conjunct2, THEN conjunct2]
  have again: "parseAll example_lib (Some ''/home/u/proj'') (map Some [exFoo, exAgain, exAgain]) (newMaker exArgsHere) = Inr m"
    by simp
  from t[THEN conjunct2, THEN conjunct2, THEN conjunct2, THEN conjunct2, THEN conjunct2, THEN conjunct1,
         rule_format, of exFoo]
  have first: "parseAll example_lib (Some ''/home/u/proj'') (map Some [exFoo, exAgain, exFoo]) (newMaker exArgsHere) = Inr m"
    by (simp add: al fa)
  have sub: "Name ` set (qualifying example_lib ''Foo'' (Decls exThird)) \<subseteq> methodNames m"
    by (simp add: q3 n names)
  note d = t[THEN conjunct2, THEN conjunct2, THEN conjunct2, THEN conjunct2, THEN conjunct1,
             rule_format, OF sub, unfolded q3]
  have h: "harvestImports example_lib ''/home/u/proj'' m (Imports exThird)
             = Inr (m\<lparr>importsByPath := [''fmt'' \<mapsto> \<lparr>Alias = [], Path = ''fmt''\<rparr>,
                                        ''x/z'' \<mapsto> \<lparr>Alias = ''q'', Path = ''x/z''\<rparr>],
                      importsByAlias := [[] \<mapsto> \<lparr>Alias = [], Path = ''fmt''\<rparr>,
                                         ''q'' \<mapsto> \<lparr>Alias = ''q'', Path = ''x/z''\<rparr>],
                      imports_list := [\<lparr>Alias = [], Path = ''fmt''\<rparr>, \<lparr>Alias = ''q'', Path = ''x/z''\<rparr>]\<rparr>)"
    by (simp add: exThird_def impSpec_def registerImport_def importAlias_def HasSuffix_def Let_def
        reg lib_defs)
  from d[THEN conjunct1] h
  have p3: "parseAll example_lib (Some ''/home/u/proj'') (map Some [exFoo, exAgain, exThird]) (newMaker exArgsHere)
             = Inr (m\<lparr>importsByPath := [''fmt'' \<mapsto> \<lparr>Alias = [], Path = ''fmt''\<rparr>,
                                        ''x/z'' \<mapsto> \<lparr>Alias = ''q'', Path = ''x/z''\<rparr>],
                      importsByAlias := [[] \<mapsto> \<lparr>Alias = [], Path = ''fmt''\<rparr>,
                                         ''q'' \<mapsto> \<lparr>Alias = ''q'', Path = ''x/z''\<rparr>],
                      imports_list := [\<lparr>Alias = [], Path = ''fmt''\<rparr>, \<lparr>Alias = ''q'', Path = ''x/z''\<rparr>]\<rparr>)"
    by simp
  from d[THEN conjunct2, rule_format, OF h]
  have same: "methods (m\<lparr>importsByPath := [''fmt'' \<mapsto> \<lparr>Alias = [], Path = ''fmt''\<rparr>,
                                        ''x/z'' \<mapsto> \<lparr>Alias = ''q'', Path = ''x/z''\<rparr>],
                      importsByAlias := [[] \<mapsto> \<lparr>Alias = [], Path = ''fmt''\<rparr>,
                                         ''q'' \<mapsto> \<lparr>Alias = ''q'', Path = ''x/z''\<rparr>],
                      imports_list := [\<lparr>Alias = [], Path = ''fmt''\<rparr>, \<lparr>Alias = ''q'', Path = ''x/z''\<rparr>]\<rparr>)
                = methods m" by simp
  have third: "\<exists>m3. parseAll example_lib (Some ''/home/u/proj'') (map Some [exFoo, exAgain, exThird]) (newMaker exArgsHere)
                  = Inr m3
             \<and> methods m3 = methods m \<and> methodNames m3 = methodNames m
             \<and> imports_list m3 = [\<lparr>Alias = [], Path = ''fmt''\<rparr>, \<lparr>Alias = ''q'', Path = ''x/z''\<rparr>]"
    using p3 by simp
  from m E me names again first third show ?thesis
    by - (rule exI[of _ m], (rule conjI, assumption)+, assumption)
qed

section \<open>When imports are harvested (C2)\<close>

text \<open>
  C2, as the claim states it, fails: after the first file has given \<^verbatim>\<open>Get\<close>, the only
  exported method of \<^verbatim>\<open>Foo\<close> in the second file is \<^verbatim>\<open>Get\<close> again, so no declaration of
  the second file qualifies in the claim's sense; yet its imports are harvested, and
  its import \<^verbatim>\<open>r "x/y"\<close> raises the alias conflict with \<^verbatim>\<open>q "x/y"\<close> of the first.
\<close>

theorem collected_name_still_harvests:
  "ParseSource example_lib (Some ''/home/u/work'') (Some exFirst) (newMaker exArgs) = Inr exAfterFirst
   \<and> filter (qualifiesNew example_lib exAfterFirst) (funcDecls (Decls exSecond)) = []
   \<and> ParseSource example_lib (Some ''/home/u/work'') (Some exSecond) exAfterFirst
        = Inl (Errorf (''Package '' @ [CHR 0x22] @ ''x/y'' @ [CHR 0x22]
                 @ '' imported multiple times with different aliases: q, r''))"
  by (simp add: exAfterFirst_def qualifiesNew_def funcDecls_def receiverNamed_def
      ex_defs lib_defs run_defs)

text \<open>
  C2, amended: the imports of a file are harvested exactly when the file has a function
  declaration with one receiver binding of the target type (or a pointer to it) and an
  exported name, collected before or not. A file without one returns the maker with
  nothing harvested, whatever it imports; a file with one returns what harvesting its
  imports and then adding the methods return. (With an empty target type name, a
  declaration that is no method stops the file with a panic.)
\<close>

theorem harvest_iff_exported_method:
  "ParseSource L (Some cwd) (Some a) m =
     (if StructName m = [] \<and> (\<exists>d\<in>set (Decls a). getReceiverTypeName d = ([], None))
      then Inl NilDereference
      else if qualifying L (StructName m) (Decls a) = [] then Inr (makeMaps m)
      else (case harvestImports L (Dir L (cwd @ [PathSeparator L] @ Output m))
                   ((makeMaps m)\<lparr>funcDecks := funcDecks m
                      @ filter (\<lambda>fd. Name fd \<notin> methodNames (makeMaps m))
                          (qualifying L (StructName m) (Decls a))\<rparr>)
                   (Imports a) of
              Inl e \<Rightarrow> Inl e
            | Inr m2 \<Rightarrow> addMethods L m2 (funcDecks m2)))
   \<and> imports_list (makeMaps m) = imports_list m
   \<and> importsByPath (makeMaps m) = importsByPath m
   \<and> importsByAlias (makeMaps m) = importsByAlias m
   \<and> PkgNameUsedInSourceStruct (makeMaps m) = PkgNameUsedInSourceStruct m"
proof -
  have fields: "imports_list (makeMaps m) = imports_list m"
    "importsByPath (makeMaps m) = importsByPath m"
    "importsByAlias (makeMaps m) = importsByAlias m"
    "PkgNameUsedInSourceStruct (makeMaps m) = PkgNameUsedInSourceStruct m"
    by (simp_all add: makeMaps_def)
  show ?thesis
  proof (cases "StructName m = [] \<and> (\<exists>d\<in>set (Decls a). getReceiverTypeName d = ([], None))")
    case True
    then have "collectDecls L (makeMaps m) (Decls a) False = Inl NilDereference"
      by (simp add: collectDecls_eq makeMaps_fields)
    with True fields show ?thesis by (simp add: ParseSource_def)
  next
    case False
    with fields show ?thesis by (simp add: ParseSource_eq)
  qed
qed

text \<open>After \<^verbatim>\<open>Get\<close> has been collected, a file that declares \<^verbatim>\<open>Get\<close> has its imports
  harvested; a file with the same imports and no exported method of \<^verbatim>\<open>Foo\<close> returns the
  maker as it was.\<close>

theorem harvest_iff_exported_method_witness:
  "(case ParseSource example_lib (Some ''/home/u/work'') (Some exFirst) (newMaker exArgs) of
      Inl e \<Rightarrow> False
    | Inr m1 \<Rightarrow>
        qualifying example_lib (StructName m1) (Decls exSecond) = [exGet]
        \<and> ParseSource example_lib (Some ''/home/u/work'') (Some exSecond) m1
            = (case harvestImports example_lib ''/home/u/work'' m1 (Imports exSecond) of
                 Inl e \<Rightarrow> Inl e
               | Inr m2 \<Rightarrow> addMethods example_lib m2 (funcDecks m2))
        \<and> ParseSource example_lib (Some ''/home/u/work'')
              (Some \<lparr>Decls = [DGen, DFunc exBarGet, DFunc exReset], Imports = Imports exSecond\<rparr>) m1
            = Inr m1)"
proof -
  obtain m1 where m1: "ParseSource example_lib (Some ''/home/u/work'') (Some exFirst) (newMaker exArgs) = Inr m1"
    by (simp add: ex_defs lib_defs run_defs)
  then have f: "StructName m1 = ''Foo''" "Output m1 = []" "methods m1 \<noteq> []"
    "methodNames m1 = {''Get''}"
    by (auto simp: ex_defs lib_defs run_defs)
  have tp: "Dir example_lib (''/home/u/work'' @ [PathSeparator example_lib] @ Output m1) = ''/home/u/work''"
    by (simp add: f lib_defs)
  have mm: "makeMaps m1 = m1" using f by (simp add: makeMaps_def)
  have q: "qualifying example_lib (StructName m1) (Decls exSecond) = [exGet]"
    by (simp add: f qualifying_def funcDecls_def receiverNamed_def ex_defs lib_defs)
  have q0: "qualifying example_lib (StructName m1)
              (Decls \<lparr>Decls = [DGen, DFunc exBarGet, DFunc exReset], Imports = Imports exSecond\<rparr>) = []"
    by (simp add: f qualifying_def funcDecls_def receiverNamed_def ex_defs lib_defs)
  have 1: "ParseSource example_lib (Some ''/home/u/work'') (Some exSecond) m1
            = (case harvestImports example_lib ''/home/u/work'' m1 (Imports exSecond) of
                 Inl e \<Rightarrow> Inl e
               | Inr m2 \<Rightarrow> addMethods example_lib m2 (funcDecks m2))"
    using harvest_iff_exported_method[of example_lib "''/home/u/work''" exSecond m1, THEN conjunct1,
            unfolded q tp mm]
    by (simp add: f exGet_def)
  have 2: "ParseSource example_lib (Some ''/home/u/work'')
              (Some \<lparr>Decls = [DGen, DFunc exBarGet, DFunc exReset], Imports = Imports exSecond\<rparr>) m1
            = Inr m1"
    using harvest_iff_exported_method[of example_lib "''/home/u/work''"
            "\<lparr>Decls = [DGen, DFunc exBarGet, DFunc exReset], Imports = Imports exSecond\<rparr>" m1, THEN conjunct1,
            unfolded q0 mm]
    by (simp add: f)
  from m1 q 1 2 show ?thesis by simp
qed

section \<open>The self import (C1)\<close>







end
